theory Spec2Isabelle
  imports Complex_Main "HOL-Library.Multiset"
begin

section \<open>Data model (types.ts, state.ts)\<close>

text \<open>
  The care scheduler keeps a log of care events and folds it into a state summary.
  Instants are UTC milliseconds since the epoch, as \<open>Date.parse\<close> and \<open>Date.now\<close>
  return them; they are integers here. Derived quantities that the source computes with
  \<open>/\<close> (minutes, sleep pressure, utilisation) are exact reals: the rounding of IEEE
  doubles is outside this model, and so is the range limit of \<open>Date\<close> (an instant
  beyond 8.64e15 ms, where \<open>toISOString\<close> raises).
\<close>

datatype RegulationLevel = low | medium | high

datatype EventType =
  FirstAwake | NapStarted | NapEnded | MilkGiven | SolidsGiven | RoutineStarted | Asleep

text \<open>
  A JavaScript number that may be \<open>NaN\<close> is an \<open>int number\<close> (or \<open>real number\<close>); a
  \<open>number | null\<close> field that is never \<open>NaN\<close> is an \<open>int option\<close>, with \<open>None\<close> for
  \<open>null\<close>.
\<close>

datatype 'a number = NaN | Num 'a

definition MS_MIN :: int where
  "MS_MIN = 60 * 1000"

text \<open>
  What the program reads from the JavaScript host (\<open>Intl.DateTimeFormat\<close>, \<open>Date\<close>) is
  made a parameter: the zone the host resolves (\<open>resolvedTimeZone\<close>, empty when the
  host gives none), the host's zone rules (\<open>zoneOffsetMin\<close>: for a zone name and a UTC
  instant in ms, the minutes that civil time in the zone is ahead of UTC), and the
  host's reading of a local date-time (\<open>localTimeToUtc\<close>: for the civil fields of a
  date-time, given as the ms they denote when read as UTC, the instant they denote in the
  host's own zone).
\<close>

record Host =
  resolvedTimeZone :: string
  zoneOffsetMin :: "string \<Rightarrow> int \<Rightarrow> int"
  localTimeToUtc :: "int \<Rightarrow> int"

text \<open>
  \<open>timestampUtc\<close> is a string in the source. The code only ever passes it to
  \<open>Date.parse\<close> or produces it with \<open>new Date(ms).toISOString()\<close>, so a timestamp string
  is represented by what \<open>Date.parse\<close> makes of it. \<open>Iso ms\<close> is a string that denotes
  the instant \<open>ms\<close> on every host: a date-time with \<open>Z\<close> or an offset, as
  \<open>toISOString\<close> writes it, or a date alone. \<open>LocalTime l\<close> is a date-time without
  offset, whose civil fields read as UTC give \<open>l\<close>: \<open>Date.parse\<close> reads it as local
  time of the host. \<open>Unparseable s\<close> is any other string, for which \<open>Date.parse\<close>
  gives \<open>NaN\<close>.
\<close>

datatype isoString = Iso int | LocalTime int | Unparseable string

fun Date_parse :: "Host \<Rightarrow> isoString \<Rightarrow> int number" where
  "Date_parse host (Iso ms) = Num ms"
| "Date_parse host (LocalTime l) = Num (localTimeToUtc host l)"
| "Date_parse host (Unparseable s) = NaN"

definition toISOString :: "int \<Rightarrow> isoString" where
  "toISOString ms = Iso ms"

text \<open>
  A suppression entry is \<open>{ type, timestampUtc }\<close>; a care event has these two fields and
  \<open>id\<close> and \<open>autoPredicted\<close> (an absent \<open>autoPredicted\<close> is falsy, here \<open>False\<close>). The
  field \<open>id\<close> is named \<open>eventId\<close>, since \<open>id\<close> is the identity function of HOL.
\<close>

record AutoSuppressionEntry =
  type :: EventType
  timestampUtc :: isoString

record CareEvent = AutoSuppressionEntry +
  eventId :: string
  autoPredicted :: bool

record CoreState =
  lastWakeTime :: "int option"
  lastNapStart :: "int option"
  lastNapEnd :: "int option"
  lastNapDuration :: "int option"
  lastFeedTime :: "int option"
  timeSinceLastFeed :: "int option"
  estimatedSleepPressure :: real
  regulationLevel :: RegulationLevel
  totalDaySleep :: int

record AppState = CoreState +
  eventLog :: "CareEvent list"
  autoSuppressed :: "AutoSuppressionEntry list"

definition DAY_START_HOUR :: int where
  "DAY_START_HOUR = 7"

definition initialCoreState :: CoreState where
  "initialCoreState =
     \<lparr> lastWakeTime = None, lastNapStart = None, lastNapEnd = None, lastNapDuration = None,
       lastFeedTime = None, timeSinceLastFeed = None, estimatedSleepPressure = 0,
       regulationLevel = medium, totalDaySleep = 0 \<rparr>"

text \<open>
  JavaScript truthiness of a \<open>number | null\<close>: \<open>null\<close> and \<open>0\<close> are falsy. The source
  tests \<open>if (x)\<close> and \<open>x ? a : b\<close> on such values in several places.
\<close>

fun truthy :: "int option \<Rightarrow> bool" where
  "truthy None = False"
| "truthy (Some v) = (v \<noteq> 0)"

section \<open>The core state reducer (state.ts)\<close>

text \<open>
  The repository holds two revisions of state.ts. The one followed here is the revision
  with the normalizer and the suppression list, whose reducer skips events that do not
  parse or lie after \<open>now\<close>; the other revision has the same \<open>levelFromSignals\<close> and
  \<open>computeSleepPressure\<close> and a reducer loop without that skip.
\<close>

definition levelFromSignals :: "real \<Rightarrow> real option \<Rightarrow> RegulationLevel" where
  "levelFromSignals sleepPressure timeSinceFeedMin =
     (if sleepPressure \<ge> 0.8 \<or> (timeSinceFeedMin \<noteq> None \<and> the timeSinceFeedMin \<ge> 180)
      then high
      else if sleepPressure \<le> 0.35 \<and> (case timeSinceFeedMin of None \<Rightarrow> 0 | Some m \<Rightarrow> m) < 120
      then low
      else medium)"

definition computeSleepPressure :: "int option \<Rightarrow> real option \<Rightarrow> int \<Rightarrow> real" where
  "computeSleepPressure lastWake lastNapDurationMin now =
     (if \<not> truthy lastWake then 0
      else
        let awakeMin = max 0 (real_of_int (now - the lastWake) / real_of_int MS_MIN);
            napPenalty = (if lastNapDurationMin \<noteq> None \<and> the lastNapDurationMin < 45
                          then 0.15 else 0)
        in min 1 (awakeMin / 150 + napPenalty))"

text \<open>
  One iteration of the \<open>for (const event of events)\<close> loop. The loop state is
  \<open>nextState\<close> and the local \<open>totalDaySleep\<close>. An event whose timestamp does not parse,
  or lies after \<open>now\<close>, takes the \<open>continue\<close>.
\<close>

definition reduceEvent ::
  "Host \<Rightarrow> int \<Rightarrow> CoreState \<times> int \<Rightarrow> CareEvent \<Rightarrow> CoreState \<times> int" where
  "reduceEvent host now acc event =
     (case acc of (nextState, totalSleep) \<Rightarrow>
       (case Date_parse host (timestampUtc event) of
          NaN \<Rightarrow> (nextState, totalSleep)
        | Num timestamp \<Rightarrow>
            if timestamp > now then (nextState, totalSleep)
            else
              (case type event of
                 FirstAwake \<Rightarrow>
                   (nextState\<lparr> lastWakeTime := Some timestamp, lastNapStart := None,
                                lastNapEnd := None, lastNapDuration := None \<rparr>, totalSleep)
               | NapStarted \<Rightarrow> (nextState\<lparr> lastNapStart := Some timestamp \<rparr>, totalSleep)
               | NapEnded \<Rightarrow>
                   (let s1 = nextState\<lparr> lastNapEnd := Some timestamp \<rparr> in
                    if truthy (lastNapStart s1)
                    then
                      (let duration = max 0 (timestamp - the (lastNapStart s1)) in
                       (s1\<lparr> lastNapDuration := Some duration, lastWakeTime := Some timestamp \<rparr>,
                        totalSleep + duration))
                    else (s1\<lparr> lastWakeTime := Some timestamp \<rparr>, totalSleep))
               | MilkGiven \<Rightarrow> (nextState\<lparr> lastFeedTime := Some timestamp \<rparr>, totalSleep)
               | SolidsGiven \<Rightarrow> (nextState\<lparr> lastFeedTime := Some timestamp \<rparr>, totalSleep)
               | Asleep \<Rightarrow> (nextState\<lparr> lastNapStart := Some timestamp \<rparr>, totalSleep)
               | RoutineStarted \<Rightarrow> (nextState, totalSleep))))"

text \<open>What follows the loop: the derived fields are filled in from the folded ones.\<close>

definition finishCoreState :: "int \<Rightarrow> CoreState \<times> int \<Rightarrow> CoreState" where
  "finishCoreState now acc =
     (case acc of (nextState, totalSleep) \<Rightarrow>
       (let s1 = nextState\<lparr> totalDaySleep := totalSleep \<rparr>;
            s2 = s1\<lparr> timeSinceLastFeed :=
                        (if truthy (lastFeedTime s1)
                         then Some (max 0 (now - the (lastFeedTime s1)))
                         else None) \<rparr>;
            lastNapDurationMin =
              (if truthy (lastNapDuration s2)
               then Some (real_of_int (the (lastNapDuration s2)) / real_of_int MS_MIN)
               else None);
            s3 = s2\<lparr> estimatedSleepPressure :=
                        computeSleepPressure (lastWakeTime s2) lastNapDurationMin now \<rparr>;
            timeSinceFeedMin =
              (if truthy (timeSinceLastFeed s3)
               then Some (real_of_int (the (timeSinceLastFeed s3)) / real_of_int MS_MIN)
               else None)
        in s3\<lparr> regulationLevel :=
                   levelFromSignals (estimatedSleepPressure s3) timeSinceFeedMin \<rparr>))"

definition recomputeCoreState :: "Host \<Rightarrow> CareEvent list \<Rightarrow> int \<Rightarrow> CoreState" where
  "recomputeCoreState host events now =
     finishCoreState now (foldl (reduceEvent host now) (initialCoreState, 0) events)"

section \<open>Configuration (constraints.ts)\<close>

text \<open>
  \<open>ConstraintConfig\<close>; durations are whole minutes and hours of the day. constraints.ts
  is present in a revision that predates the normalizer: its \<open>ConstraintConfig\<close> and
  \<open>defaultConfig\<close> have the first thirteen fields below, while \<open>buildBaselineEvents\<close>
  reads \<open>defaultConfig.feedIntervalMinMin\<close> as a number. The configuration is
  therefore a parameter \<open>cfg\<close> of the normalizer, with \<open>feedIntervalMinMin\<close> among its
  fields, and \<open>defaultConfig\<close> takes the value of that field as a parameter. (The later
  revision also has \<open>nightSleepDurationMin\<close>, which none of the functions below reads.)
\<close>

record ConstraintConfig =
  minWakeWindowMin :: int
  maxWakeWindowMin :: int
  shortenWakeByMinIfShortNap :: int
  shortNapThresholdMin :: int
  lateNapHour :: int
  bedtimeLatestHour :: int
  bedtimeLatestMinute :: int
  bedtimeEarlierByMinIfLateNap :: int
  routineLatencyMin :: int
  setupLatencyMin :: int
  nextNapCapMinIfLateNap :: int
  feedIntervalMaxMin :: int
  expectedNapDurationMin :: int
  feedIntervalMinMin :: int

definition defaultConfig :: "int \<Rightarrow> ConstraintConfig" where
  "defaultConfig feedMin =
     \<lparr> minWakeWindowMin = 75, maxWakeWindowMin = 130, shortenWakeByMinIfShortNap = 15,
       shortNapThresholdMin = 45, lateNapHour = 15, bedtimeLatestHour = 20,
       bedtimeLatestMinute = 0, bedtimeEarlierByMinIfLateNap = 30, routineLatencyMin = 25,
       setupLatencyMin = 10, nextNapCapMinIfLateNap = 40, feedIntervalMaxMin = 180,
       expectedNapDurationMin = 60, feedIntervalMinMin = feedMin \<rparr>"

section \<open>The host: resolved time zone and civil time\<close>

text \<open>
  \<open>resolveTimeZone\<close>, \<open>getZonedParts\<close> and \<open>Date.UTC\<close> go through the host. The
  proleptic Gregorian calendar itself does not depend on the host and is written out.
\<close>

record ZonedParts =
  year :: int
  month :: int
  day :: int
  hour :: int
  minute :: int

definition days_from_civil :: "int \<Rightarrow> int \<Rightarrow> int \<Rightarrow> int" where
  "days_from_civil y m d =
     (let y1 = (if m \<le> 2 then y - 1 else y);
          era = y1 div 400;
          yoe = y1 - era * 400;
          doy = (153 * (if m > 2 then m - 3 else m + 9) + 2) div 5 + d - 1;
          doe = yoe * 365 + yoe div 4 - yoe div 100 + doy
      in era * 146097 + doe - 719468)"

definition civil_from_days :: "int \<Rightarrow> int \<times> int \<times> int" where
  "civil_from_days z =
     (let z1 = z + 719468;
          era = z1 div 146097;
          doe = z1 - era * 146097;
          yoe = (doe - doe div 1460 + doe div 36524 - doe div 146096) div 365;
          doy = doe - (365 * yoe + yoe div 4 - yoe div 100);
          mp = (5 * doy + 2) div 153;
          d = doy - (153 * mp + 2) div 5 + 1;
          m = (if mp < 10 then mp + 3 else mp - 9);
          y = yoe + era * 400
      in (if m \<le> 2 then y + 1 else y, m, d))"

text \<open>
  \<open>Date.UTC(year, monthIndex, day, hour, minute)\<close>, for a month index in 0..11 and a
  year from 100 on (\<open>Date.UTC\<close> reads the years 0 to 99 as 1900 to 1999).
\<close>

definition Date_UTC :: "int \<Rightarrow> int \<Rightarrow> int \<Rightarrow> int \<Rightarrow> int \<Rightarrow> int" where
  "Date_UTC y monthIndex d h mi =
     ((days_from_civil y (monthIndex + 1) d * 24 + h) * 60 + mi) * MS_MIN"

definition resolveTimeZone :: "Host \<Rightarrow> string" where
  "resolveTimeZone host =
     (if resolvedTimeZone host = [] then ''UTC'' else resolvedTimeZone host)"

definition getZonedParts :: "Host \<Rightarrow> int \<Rightarrow> string \<Rightarrow> ZonedParts" where
  "getZonedParts host utcMs timeZone =
     (let localMin = utcMs div MS_MIN + zoneOffsetMin host timeZone utcMs;
          ymd = civil_from_days (localMin div 1440)
      in \<lparr> year = fst ymd, month = fst (snd ymd), day = snd (snd ymd),
           hour = (localMin mod 1440) div 60, minute = localMin mod 60 \<rparr>)"

definition getTimeZoneOffsetMs :: "Host \<Rightarrow> int \<Rightarrow> string \<Rightarrow> int" where
  "getTimeZoneOffsetMs host utcMs timeZone =
     (let parts = getZonedParts host utcMs timeZone;
          asUtc = Date_UTC (year parts) (month parts - 1) (day parts) (hour parts) (minute parts)
      in utcMs - asUtc)"

definition getUtcMsFromZoned :: "Host \<Rightarrow> ZonedParts \<Rightarrow> string \<Rightarrow> int" where
  "getUtcMsFromZoned host zoned timeZone =
     (let tentative =
            Date_UTC (year zoned) (month zoned - 1) (day zoned) (hour zoned) (minute zoned);
          offset = getTimeZoneOffsetMs host tentative timeZone
      in tentative + offset)"

definition getDayStartUtc :: "Host \<Rightarrow> int \<Rightarrow> int" where
  "getDayStartUtc host utcNow =
     (let timeZone = resolveTimeZone host;
          parts = getZonedParts host utcNow timeZone;
          todayStart =
            getUtcMsFromZoned host
              \<lparr> year = year parts, month = month parts, day = day parts,
                hour = DAY_START_HOUR, minute = 0 \<rparr> timeZone
      in if todayStart > utcNow then todayStart - 24 * 60 * 60 * 1000 else todayStart)"

section \<open>The normalizer (state.ts)\<close>

text \<open>A template literal \<open>${n}\<close> prints an integer in decimal.\<close>

function digits :: "int \<Rightarrow> string" where
  "digits n =
     (if n < 10 then [char_of (48 + n)] else digits (n div 10) @ [char_of (48 + n mod 10)])"
  by pat_completeness auto
termination
  by (relation "measure nat") auto

declare digits.simps [simp del]

definition numberString :: "int \<Rightarrow> string" where
  "numberString n = (if n < 0 then CHR ''-'' # digits (- n) else digits n)"

definition BASELINE_TOLERANCE_MIN :: int where
  "BASELINE_TOLERANCE_MIN = 20"

subsection \<open>Sorting by timestamp\<close>

text \<open>
  The comparator \<open>(a, b) => Date.parse(a.timestampUtc) - Date.parse(b.timestampUtc)\<close>
  gives \<open>NaN\<close> as soon as one of the two timestamps does not parse, and
  \<open>Array.prototype.sort\<close> reads a \<open>NaN\<close> from its comparator as \<open>+0\<close>.
  \<open>Array.prototype.sort\<close> is stable. It is modelled as a stable insertion sort: on
  logs whose timestamps all parse the comparator is consistent and the result is the one
  stable ascending order; on a log with an unparseable timestamp ECMAScript leaves the
  order to the implementation, and the model is one such implementation.
\<close>

definition compareByTime :: "Host \<Rightarrow> CareEvent \<Rightarrow> CareEvent \<Rightarrow> int number" where
  "compareByTime host a b =
     (case Date_parse host (timestampUtc a) of
        NaN \<Rightarrow> NaN
      | Num x \<Rightarrow>
          (case Date_parse host (timestampUtc b) of NaN \<Rightarrow> NaN | Num y \<Rightarrow> Num (x - y)))"

fun sortOrder :: "int number \<Rightarrow> int" where
  "sortOrder NaN = 0"
| "sortOrder (Num v) = v"

primrec insertEvent :: "Host \<Rightarrow> CareEvent \<Rightarrow> CareEvent list \<Rightarrow> CareEvent list" where
  "insertEvent host x [] = [x]"
| "insertEvent host x (y # ys) =
     (if sortOrder (compareByTime host x y) \<le> 0 then x # y # ys
      else y # insertEvent host x ys)"

definition sortEvents :: "Host \<Rightarrow> CareEvent list \<Rightarrow> CareEvent list" where
  "sortEvents host xs = foldr (insertEvent host) xs []"

subsection \<open>Matching within the tolerance\<close>

definition hasMatchingEvent :: "Host \<Rightarrow> CareEvent list \<Rightarrow> EventType \<Rightarrow> int \<Rightarrow> bool" where
  "hasMatchingEvent host events ty timestamp =
     (let tolerance = BASELINE_TOLERANCE_MIN * MS_MIN in
      list_ex (\<lambda>event.
        if type event \<noteq> ty then False
        else (case Date_parse host (timestampUtc event) of
                NaN \<Rightarrow> False
              | Num eventTime \<Rightarrow> \<bar>eventTime - timestamp\<bar> \<le> tolerance)) events)"

definition isSuppressedAuto ::
  "Host \<Rightarrow> AutoSuppressionEntry list \<Rightarrow> EventType \<Rightarrow> int \<Rightarrow> bool" where
  "isSuppressedAuto host suppressed ty timestamp =
     (let tolerance = BASELINE_TOLERANCE_MIN * MS_MIN in
      list_ex (\<lambda>entry.
        if type entry \<noteq> ty then False
        else (case Date_parse host (timestampUtc entry) of
                NaN \<Rightarrow> False
              | Num entryTime \<Rightarrow> \<bar>entryTime - timestamp\<bar> \<le> tolerance)) suppressed)"

definition isCoreEvent :: "CareEvent \<Rightarrow> bool" where
  "isCoreEvent event = (type event \<noteq> RoutineStarted)"

subsection \<open>The baseline schedule\<close>

text \<open>
  Comparisons with a number that may be \<open>NaN\<close> are false when it is; the horizon can be
  \<open>NaN\<close>.
\<close>

fun numLe :: "int number \<Rightarrow> int number \<Rightarrow> bool" where
  "numLe (Num a) (Num b) = (a \<le> b)"
| "numLe _ _ = False"

fun numLt :: "int number \<Rightarrow> int number \<Rightarrow> bool" where
  "numLt (Num a) (Num b) = (a < b)"
| "numLt _ _ = False"

definition feedEvent :: "int \<Rightarrow> CareEvent" where
  "feedEvent feedTime =
     \<lparr> type = MilkGiven, timestampUtc = toISOString feedTime,
       eventId = ''auto-feed-'' @ numberString feedTime, autoPredicted = True \<rparr>"

definition napStartEvent :: "int \<Rightarrow> CareEvent" where
  "napStartEvent napStart =
     \<lparr> type = NapStarted, timestampUtc = toISOString napStart,
       eventId = ''auto-nap-start-'' @ numberString napStart, autoPredicted = True \<rparr>"

definition napEndEvent :: "int \<Rightarrow> CareEvent" where
  "napEndEvent napEnd =
     \<lparr> type = NapEnded, timestampUtc = toISOString napEnd,
       eventId = ''auto-nap-end-'' @ numberString napEnd, autoPredicted = True \<rparr>"

definition maxCycles :: nat where
  "maxCycles = 8"

text \<open>
  The \<open>while\<close> loop of \<open>buildBaselineEvents\<close>, with its variables \<open>wakeStart\<close>,
  \<open>cycle\<close> and \<open>events\<close>; a \<open>break\<close> returns the events pushed so far. The source
  reads the module constant \<open>defaultConfig\<close>, here the parameter \<open>cfg\<close>.
\<close>

function baselineLoop ::
  "ConstraintConfig \<Rightarrow> int number \<Rightarrow> int \<Rightarrow> nat \<Rightarrow> CareEvent list \<Rightarrow> CareEvent list" where
  "baselineLoop cfg horizonUtc wakeStart cycle events =
     (if numLt (Num wakeStart) horizonUtc \<and> cycle < maxCycles then
        (let feedTime = wakeStart + feedIntervalMinMin cfg * MS_MIN;
             events1 = (if numLe (Num feedTime) horizonUtc
                        then events @ [feedEvent feedTime] else events);
             napStart = wakeStart + minWakeWindowMin cfg * MS_MIN
         in if numLe (Num napStart) horizonUtc then
              (let events2 = events1 @ [napStartEvent napStart];
                   napEnd = napStart + expectedNapDurationMin cfg * MS_MIN
               in if numLe (Num napEnd) horizonUtc
                  then baselineLoop cfg horizonUtc napEnd (cycle + 1) (events2 @ [napEndEvent napEnd])
                  else events2)
            else events1)
      else events)"
  by pat_completeness auto
termination
  by (relation "measure (\<lambda>(cfg, horizonUtc, wakeStart, cycle, events). maxCycles - cycle)") auto

declare baselineLoop.simps [simp del]

definition buildBaselineEvents ::
  "ConstraintConfig \<Rightarrow> int \<Rightarrow> int number \<Rightarrow> CareEvent list" where
  "buildBaselineEvents cfg firstWakeUtc horizonUtc = baselineLoop cfg horizonUtc firstWakeUtc 0 []"

subsection \<open>normalizeEventLog\<close>

text \<open>
  The local constants of \<open>normalizeEventLog\<close>, each as a function of the inputs it is
  computed from, under the name it has in the source.
\<close>

definition ordered :: "Host \<Rightarrow> CareEvent list \<Rightarrow> CareEvent list" where
  "ordered host evLog = sortEvents host evLog"

definition hasFirstAwake :: "Host \<Rightarrow> CareEvent list \<Rightarrow> bool" where
  "hasFirstAwake host evLog =
     list_ex (\<lambda>event. type event = FirstAwake \<and> \<not> autoPredicted event) (ordered host evLog)"

definition cleaned :: "Host \<Rightarrow> CareEvent list \<Rightarrow> CareEvent list" where
  "cleaned host evLog =
     filter (\<lambda>event. \<not> (type event = FirstAwake \<and> autoPredicted event
                          \<and> hasFirstAwake host evLog))
       (ordered host evLog)"

definition hasAnyFirstAwake :: "Host \<Rightarrow> CareEvent list \<Rightarrow> bool" where
  "hasAnyFirstAwake host evLog =
     list_ex (\<lambda>event. type event = FirstAwake) (cleaned host evLog)"

definition predictedFirstAwake :: "Host \<Rightarrow> int \<Rightarrow> CareEvent" where
  "predictedFirstAwake host now =
     (let predictedTime = getDayStartUtc host now in
      \<lparr> type = FirstAwake, timestampUtc = toISOString predictedTime,
        eventId = ''auto-first-awake-'' @ numberString predictedTime, autoPredicted = True \<rparr>)"

definition withFirstAwake :: "Host \<Rightarrow> CareEvent list \<Rightarrow> int \<Rightarrow> CareEvent list" where
  "withFirstAwake host evLog now =
     (if hasAnyFirstAwake host evLog then cleaned host evLog
      else cleaned host evLog @ [predictedFirstAwake host now])"

definition realEvents :: "CareEvent list \<Rightarrow> CareEvent list" where
  "realEvents wfa = filter (\<lambda>event. \<not> autoPredicted event \<and> isCoreEvent event) wfa"

text \<open>\<open>slice(-3)\<close>: the last three elements, or all of them when there are fewer.\<close>

definition lastThreeReal :: "CareEvent list \<Rightarrow> CareEvent list" where
  "lastThreeReal wfa = drop (length (realEvents wfa) - 3) (realEvents wfa)"

text \<open>\<open>Math.max\<close> of two numbers is \<open>NaN\<close> when one of them is.\<close>

fun numMax :: "int number \<Rightarrow> int number \<Rightarrow> int number" where
  "numMax (Num a) (Num b) = Num (max a b)"
| "numMax _ _ = NaN"

text \<open>
  \<open>lastThreeReal.length ? Math.max(...lastThreeReal.map(parse)) : now\<close>; \<open>Math.max\<close> is
  only called on a non-empty list.
\<close>

definition horizonUtc :: "Host \<Rightarrow> CareEvent list \<Rightarrow> int \<Rightarrow> int number" where
  "horizonUtc host wfa now =
     (case lastThreeReal wfa of
        [] \<Rightarrow> Num now
      | e # es \<Rightarrow> foldl numMax (Date_parse host (timestampUtc e))
                   (map (\<lambda>event. Date_parse host (timestampUtc event)) es))"

text \<open>The body of \<open>baselineEvents.forEach\<close>: \<open>merged\<close> is the accumulator.\<close>

definition mergeCandidate ::
  "Host \<Rightarrow> AutoSuppressionEntry list \<Rightarrow> CareEvent list \<Rightarrow> CareEvent \<Rightarrow> CareEvent list" where
  "mergeCandidate host suppressed merged candidate =
     (case Date_parse host (timestampUtc candidate) of
        NaN \<Rightarrow> merged
      | Num candidateTime \<Rightarrow>
          if isSuppressedAuto host suppressed (type candidate) candidateTime then merged
          else if hasMatchingEvent host merged (type candidate) candidateTime then merged
          else merged @ [candidate])"

definition normalizeEventLog ::
  "Host \<Rightarrow> ConstraintConfig \<Rightarrow> CareEvent list \<Rightarrow> int \<Rightarrow> AutoSuppressionEntry list
     \<Rightarrow> CareEvent list" where
  "normalizeEventLog host cfg evLog now suppressed =
     (let wfa = withFirstAwake host evLog now;
          horizon = horizonUtc host wfa now
      in case find (\<lambda>event. type event = FirstAwake) wfa of
           None \<Rightarrow> sortEvents host wfa
         | Some firstWake \<Rightarrow>
             (case Date_parse host (timestampUtc firstWake) of
                NaN \<Rightarrow> sortEvents host wfa
              | Num firstWakeUtc \<Rightarrow>
                  (let baselineEvents = buildBaselineEvents cfg firstWakeUtc horizon;
                       merged = foldl (mergeCandidate host suppressed) wfa baselineEvents
                   in sortEvents host merged)))"

text \<open>\<open>{ ...core, eventLog, autoSuppressed }\<close>.\<close>

definition withLog ::
  "CoreState \<Rightarrow> CareEvent list \<Rightarrow> AutoSuppressionEntry list \<Rightarrow> AppState" where
  "withLog core evLog suppressed =
     CoreState.extend core (AppState.fields evLog suppressed)"

definition applyEvent ::
  "Host \<Rightarrow> ConstraintConfig \<Rightarrow> AppState \<Rightarrow> CareEvent \<Rightarrow> int \<Rightarrow> AppState" where
  "applyEvent host cfg state event now =
     (let evLog = normalizeEventLog host cfg (eventLog state @ [event]) now (autoSuppressed state);
          core = recomputeCoreState host evLog now
      in withLog core evLog (autoSuppressed state))"

definition rebuildFromLog ::
  "Host \<Rightarrow> ConstraintConfig \<Rightarrow> CareEvent list \<Rightarrow> int \<Rightarrow> AutoSuppressionEntry list
     \<Rightarrow> AppState" where
  "rebuildFromLog host cfg evLog now suppressed =
     (let normalized = normalizeEventLog host cfg evLog now suppressed;
          core = recomputeCoreState host normalized now
      in withLog core normalized suppressed)"

section \<open>The output projector (constraints.ts)\<close>

text \<open>
  \<open>computeOutputs\<close>, without the two display texts \<open>stateSummary\<close> and \<open>shiftPreview\<close>;
  every other field of \<open>OutputModel\<close> is modelled. The nested objects
  \<open>activityCategories\<close>, \<open>windowCategories\<close> and \<open>pressureIndicator\<close> are flattened
  into the record, an activity \<open>{ label, expiresAt }\<close> is a pair and so is
  \<open>{ label, reason }\<close>.
\<close>

datatype Trend = up | down

datatype RegulationRisk = riskLow | riskRising | riskHigh

record OutputModel =
  nextWindow :: "string option"
  nextHardStop :: "string option"
  isAsleep :: bool
  nextWindowStartUtc :: "int option"
  nextWindowEndUtc :: "int option"
  nextHardStopUtc :: "int option"
  wakeWindowRemainingMin :: "int option"
  expectedWakeUtc :: "int option"
  activityAllowed :: "(string \<times> int option) list"
  activitySuppressed :: "(string \<times> string) list"
  windowAllowed :: "string list"
  windowSuppressed :: "string list"
  wakeUtilization :: "real number option"
  sleepPressureTrend :: Trend
  regulationRisk :: RegulationRisk

text \<open>\<open>Math.round(ms / MS_MIN)\<close>: \<open>Math.round\<close> rounds a half up.\<close>

definition minutesFromMs :: "int \<Rightarrow> int" where
  "minutesFromMs ms = (2 * ms + MS_MIN) div (2 * MS_MIN)"

definition addMinutes :: "int \<Rightarrow> int \<Rightarrow> int" where
  "addMinutes time minutes = time + minutes * MS_MIN"

definition dayBoundUtc :: "Host \<Rightarrow> int \<Rightarrow> string \<Rightarrow> int \<Rightarrow> int \<Rightarrow> int" where
  "dayBoundUtc host sourceUtc timeZone h mi =
     (let parts = getZonedParts host sourceUtc timeZone in
      getUtcMsFromZoned host
        \<lparr> year = year parts, month = month parts, day = day parts, hour = h, minute = mi \<rparr>
        timeZone)"

text \<open>
  \<open>formatTime\<close> renders an instant as the en-US 12-hour clock time of the zone,
  \<open>hh:mm AM\<close> or \<open>hh:mm PM\<close>.
\<close>

definition pad2 :: "int \<Rightarrow> string" where
  "pad2 n = (if n < 10 then CHR ''0'' # digits n else digits n)"

definition formatTime :: "Host \<Rightarrow> int \<Rightarrow> string \<Rightarrow> string" where
  "formatTime host utcMs timeZone =
     (let parts = getZonedParts host utcMs timeZone;
          h12 = (if hour parts mod 12 = 0 then 12 else hour parts mod 12)
      in pad2 h12 @ '':'' @ pad2 (minute parts) @ (if hour parts < 12 then '' AM'' else '' PM''))"

text \<open>The en dash of the \<open>nextWindow\<close> text, in UTF-8.\<close>

definition enDash :: string where
  "enDash = [CHR 0xE2, CHR 0x80, CHR 0x93]"

text \<open>
  \<open>Math.min(1, Math.max(0, awakeMin / maxWake))\<close>. A division by zero gives an infinity,
  which the clamp takes to 1 or 0, and \<open>0 / 0\<close> gives \<open>NaN\<close>, which \<open>Math.max\<close> and
  \<open>Math.min\<close> pass on.
\<close>

definition clampedRatio :: "int \<Rightarrow> int \<Rightarrow> real number" where
  "clampedRatio awakeMin maxWake =
     (if maxWake = 0
      then (if awakeMin = 0 then NaN else if awakeMin > 0 then Num 1 else Num 0)
      else Num (min 1 (max 0 (real_of_int awakeMin / real_of_int maxWake))))"

text \<open>The four label lists of one tier: window allowed and suppressed, activity allowed
  and suppressed.\<close>

type_synonym categories =
  "string list \<times> string list \<times> (string \<times> int option) list \<times> (string \<times> string) list"

definition earlyTier :: "int \<Rightarrow> categories" where
  "earlyTier endWindow =
     ([''Regulation / low stimulation'', ''Outdoor light'', ''Routine reset''],
      [''High stimulation'', ''New novel activities''],
      [(''Low-stim movement'', Some endWindow), (''Quiet bonding'', Some endWindow),
       (''Feeding window prep'', Some endWindow)],
      [(''High stimulation'', ''wake window still early''),
       (''New novel activities'', ''wake window still early'')])"

definition midTier :: "int \<Rightarrow> categories" where
  "midTier endWindow =
     ([''Regulation / low stimulation'', ''Outdoor light'', ''Routine reset''],
      [''High stimulation'', ''New novel activities''],
      [(''Active play'', Some endWindow), (''Outdoor light'', Some endWindow),
       (''Routine reset'', Some endWindow)],
      [(''High stimulation'', ''wake window mid-cycle''),
       (''New novel activities'', ''wake window mid-cycle'')])"

definition lateTier :: "int \<Rightarrow> categories" where
  "lateTier endWindow =
     ([''Regulation / low stimulation'', ''Routine reset''],
      [''High stimulation'', ''New novel activities'', ''Outdoor light''],
      [(''Wind-down'', Some endWindow), (''Low-light calm'', Some endWindow),
       (''Routine start'', Some endWindow)],
      [(''High stimulation'', ''wake window near cap''),
       (''New novel activities'', ''wake window near cap''),
       (''Outdoor light'', ''wake window near cap'')])"

definition exceededTier :: "int \<Rightarrow> categories" where
  "exceededTier endWindow =
     ([''Regulation / low stimulation''],
      [''High stimulation'', ''New novel activities'', ''Outdoor light''],
      [(''Minimal stimulation'', Some endWindow), (''Reduce novelty'', Some endWindow),
       (''Bridge to sleep'', Some endWindow)],
      [(''High stimulation'', ''wake window exceeded''),
       (''New novel activities'', ''wake window exceeded''),
       (''Outdoor light'', ''wake window exceeded'')])"

definition notCalibratedTier :: categories where
  "notCalibratedTier =
     ([''Log first awake''],
      [''High stimulation'', ''New novel activities''],
      [(''Log first awake'', None), (''Record a feed'', None),
       (''Start routine when ready'', None)],
      [(''High stimulation'', ''system not yet calibrated''),
       (''New novel activities'', ''system not yet calibrated'')])"

definition currentlyAsleep :: "AppState \<Rightarrow> bool" where
  "currentlyAsleep state =
     (lastNapStart state \<noteq> None \<and>
      (lastNapEnd state = None \<or> the (lastNapEnd state) < the (lastNapStart state)))"

definition lateNapOf :: "Host \<Rightarrow> AppState \<Rightarrow> string \<Rightarrow> ConstraintConfig \<Rightarrow> bool" where
  "lateNapOf host state timeZone config =
     (lastNapEnd state \<noteq> None \<and>
      hour (getZonedParts host (the (lastNapEnd state)) timeZone) \<ge> lateNapHour config)"

text \<open>\<open>expectedWakeUtc\<close>, set by the block \<open>if (currentlyAsleep && state.lastNapStart)\<close>.\<close>

definition expectedWakeOf ::
  "Host \<Rightarrow> AppState \<Rightarrow> string \<Rightarrow> ConstraintConfig \<Rightarrow> int option" where
  "expectedWakeOf host state timeZone config =
     (if currentlyAsleep state \<and> truthy (lastNapStart state)
      then
        (let estimatedDuration =
               (if lateNapOf host state timeZone config
                then min (expectedNapDurationMin config) (nextNapCapMinIfLateNap config)
                else expectedNapDurationMin config)
         in Some (addMinutes (the (lastNapStart state)) estimatedDuration))
      else None)"

text \<open>
  The constants \<open>shorten\<close>, \<open>minWake\<close>, \<open>maxWake\<close> and \<open>awakeMin\<close> of the branch
  \<open>if (state.lastWakeTime)\<close>, as functions of the inputs.
\<close>

definition shortenOf :: "AppState \<Rightarrow> ConstraintConfig \<Rightarrow> bool" where
  "shortenOf state config =
     (let lastNapDurationMin =
            (if truthy (lastNapDuration state)
             then Some (real_of_int (the (lastNapDuration state)) / real_of_int MS_MIN)
             else None)
      in lastNapDurationMin \<noteq> None \<and>
         the lastNapDurationMin < real_of_int (shortNapThresholdMin config))"

definition minWakeOf :: "AppState \<Rightarrow> ConstraintConfig \<Rightarrow> int" where
  "minWakeOf state config =
     minWakeWindowMin config
       - (if shortenOf state config then shortenWakeByMinIfShortNap config else 0)"

definition maxWakeOf :: "AppState \<Rightarrow> ConstraintConfig \<Rightarrow> int" where
  "maxWakeOf state config =
     maxWakeWindowMin config
       - (if shortenOf state config then shortenWakeByMinIfShortNap config else 0)"

definition awakeMinOf :: "AppState \<Rightarrow> int \<Rightarrow> int" where
  "awakeMinOf state now = minutesFromMs (now - the (lastWakeTime state))"

text \<open>
  The branch \<open>if (state.lastWakeTime)\<close>: the lists are filled by the tier chosen by the
  \<open>if\<close> chain (emptied when asleep), then the block \<open>if (awakeMin > maxWake)\<close>, which
  is not part of that chain, replaces them.
\<close>

definition computeOutputs ::
  "Host \<Rightarrow> AppState \<Rightarrow> int \<Rightarrow> string \<Rightarrow> ConstraintConfig \<Rightarrow> OutputModel" where
  "computeOutputs host state now timeZone config =
     (if truthy (lastWakeTime state) then
        (let lastWake = the (lastWakeTime state);
             minWake = minWakeOf state config;
             maxWake = maxWakeOf state config;
             startWindow = addMinutes lastWake minWake;
             endWindow = addMinutes lastWake maxWake;
             lateNap = lateNapOf host state timeZone config;
             bedtimeLatest0 =
               dayBoundUtc host now timeZone (bedtimeLatestHour config)
                 (bedtimeLatestMinute config);
             bedtimeLatest =
               (if lateNap then addMinutes bedtimeLatest0 (- bedtimeEarlierByMinIfLateNap config)
                else bedtimeLatest0);
             routineLatest =
               addMinutes bedtimeLatest (- (routineLatencyMin config + setupLatencyMin config));
             awakeMin = awakeMinOf state now;
             asleep = currentlyAsleep state;
             tier =
               (if asleep then ([], [], [], [])
                else if real_of_int awakeMin < real_of_int minWake * 0.6 then earlyTier endWindow
                else if real_of_int awakeMin < real_of_int maxWake * 0.9 then midTier endWindow
                else lateTier endWindow);
             cats = (if awakeMin > maxWake then exceededTier endWindow else tier)
         in \<lparr> nextWindow =
                (if asleep then None
                 else Some (formatTime host startWindow timeZone @ '' '' @ enDash @ '' '' @
                            formatTime host endWindow timeZone)),
              nextHardStop =
                (if asleep then None
                 else Some (''Routine latest '' @ formatTime host routineLatest timeZone @
                            '' (bedtime cap '' @ formatTime host bedtimeLatest timeZone @ '')'')),
              isAsleep = asleep,
              nextWindowStartUtc = (if asleep then None else Some startWindow),
              nextWindowEndUtc = (if asleep then None else Some endWindow),
              nextHardStopUtc = (if asleep then None else Some routineLatest),
              wakeWindowRemainingMin = (if asleep then None else Some (max 0 (maxWake - awakeMin))),
              expectedWakeUtc = expectedWakeOf host state timeZone config,
              activityAllowed = fst (snd (snd cats)),
              activitySuppressed = snd (snd (snd cats)),
              windowAllowed = fst cats,
              windowSuppressed = fst (snd cats),
              wakeUtilization = Some (clampedRatio awakeMin maxWake),
              sleepPressureTrend = (if asleep then down else up),
              regulationRisk =
                (if regulationLevel state = low then riskLow
                 else if regulationLevel state = high then riskHigh
                 else riskRising) \<rparr>)
      else
        \<lparr> nextWindow = None,
          nextHardStop = None,
          isAsleep = currentlyAsleep state,
          nextWindowStartUtc = None,
          nextWindowEndUtc = None,
          nextHardStopUtc = None,
          wakeWindowRemainingMin = None,
          expectedWakeUtc = expectedWakeOf host state timeZone config,
          activityAllowed = fst (snd (snd notCalibratedTier)),
          activitySuppressed = snd (snd (snd notCalibratedTier)),
          windowAllowed = fst notCalibratedTier,
          windowSuppressed = fst (snd notCalibratedTier),
          wakeUtilization = None,
          sleepPressureTrend = up,
          regulationRisk = riskRising \<rparr>)"

section \<open>Notions used in the statements\<close>

text \<open>An event that parses and is not after \<open>now\<close>: the ones the reducer's loop does not skip.\<close>

definition usableAt :: "Host \<Rightarrow> int \<Rightarrow> CareEvent \<Rightarrow> bool" where
  "usableAt host now event =
     (case Date_parse host (timestampUtc event) of NaN \<Rightarrow> False | Num t \<Rightarrow> t \<le> now)"

text \<open>
  An event whose timestamp parses (on every host, or on none), and the instant it then
  denotes on a host.
\<close>

definition parses :: "CareEvent \<Rightarrow> bool" where
  "parses event = (case timestampUtc event of Unparseable s \<Rightarrow> False | _ \<Rightarrow> True)"

definition instantOf :: "Host \<Rightarrow> CareEvent \<Rightarrow> int" where
  "instantOf host event =
     (case Date_parse host (timestampUtc event) of NaN \<Rightarrow> 0 | Num t \<Rightarrow> t)"

text \<open>
  Two hosts read a timestamp alike: they do for every string with \<open>Z\<close> or an offset,
  and for a date-time without offset when their local zones agree on it.
\<close>

definition readAlike :: "Host \<Rightarrow> Host \<Rightarrow> isoString \<Rightarrow> bool" where
  "readAlike host host' ts = (Date_parse host ts = Date_parse host' ts)"

text \<open>What one cycle of the baseline loop pushes for the feed: one event or none.\<close>

definition feedPart :: "ConstraintConfig \<Rightarrow> int number \<Rightarrow> int \<Rightarrow> CareEvent list" where
  "feedPart cfg horizon wakeStart =
     (if numLe (Num (wakeStart + feedIntervalMinMin cfg * MS_MIN)) horizon
      then [feedEvent (wakeStart + feedIntervalMinMin cfg * MS_MIN)] else [])"

text \<open>
  The baseline schedule in the words of the specification. One cycle from a wake point
  is a feed at the wake point plus \<open>feedIntervalMinMin\<close>, a nap start at the wake point
  plus \<open>minWakeWindowMin\<close>, and a nap end at the nap start plus
  \<open>expectedNapDurationMin\<close>; the next cycle starts from that nap end.
  \<open>baselineSchedule cfg n wake\<close> is \<open>n\<close> such cycles from \<open>wake\<close>, in the order the
  events are synthesized, and \<open>withinHorizon\<close> holds of an event whose instant does not
  exceed the horizon.
\<close>

definition cycleEvents :: "ConstraintConfig \<Rightarrow> int \<Rightarrow> CareEvent list" where
  "cycleEvents cfg wake =
     [feedEvent (wake + feedIntervalMinMin cfg * MS_MIN),
      napStartEvent (wake + minWakeWindowMin cfg * MS_MIN),
      napEndEvent (wake + minWakeWindowMin cfg * MS_MIN + expectedNapDurationMin cfg * MS_MIN)]"

definition nextWake :: "ConstraintConfig \<Rightarrow> int \<Rightarrow> int" where
  "nextWake cfg wake =
     wake + minWakeWindowMin cfg * MS_MIN + expectedNapDurationMin cfg * MS_MIN"

primrec baselineSchedule :: "ConstraintConfig \<Rightarrow> nat \<Rightarrow> int \<Rightarrow> CareEvent list" where
  "baselineSchedule cfg 0 wake = []"
| "baselineSchedule cfg (Suc n) wake =
     cycleEvents cfg wake @ baselineSchedule cfg n (nextWake cfg wake)"

definition withinHorizon :: "Host \<Rightarrow> int \<Rightarrow> CareEvent \<Rightarrow> bool" where
  "withinHorizon host h event = numLe (Date_parse host (timestampUtc event)) (Num h)"

section \<open>Example inputs\<close>

text \<open>
  Two hosts: one whose zone is UTC, one whose zone is Asia/Singapore, eight hours ahead
  of UTC all year.
\<close>

definition utcHost :: Host where
  "utcHost =
     \<lparr> resolvedTimeZone = ''UTC'', zoneOffsetMin = (\<lambda>zone utcMs. 0),
       localTimeToUtc = (\<lambda>l. l) \<rparr>"

definition sgHost :: Host where
  "sgHost =
     \<lparr> resolvedTimeZone = ''Asia/Singapore'',
       zoneOffsetMin = (\<lambda>zone utcMs. if zone = ''Asia/Singapore'' then 480 else 0),
       localTimeToUtc = (\<lambda>l. l - 8 * 60 * 60 * 1000) \<rparr>"

text \<open>
  The examples run with \<open>defaultConfig 150\<close>: the fields of constraints.ts and, as an
  example value of the feed interval, 150 minutes.

  An event as the user logs it (\<open>buildEvent\<close>, with the id given instead of drawn at
  random). The instant 1700000000000 is 2023-11-14T22:13:20Z.
\<close>

definition loggedEvent :: "EventType \<Rightarrow> int \<Rightarrow> string \<Rightarrow> CareEvent" where
  "loggedEvent ty timestamp ident =
     \<lparr> type = ty, timestampUtc = toISOString timestamp, eventId = ident,
       autoPredicted = False \<rparr>"

text \<open>A nap that starts and ends at the same instant, one hour after the first wake.\<close>

definition zeroNapLog :: "CareEvent list" where
  "zeroNapLog =
     [loggedEvent FirstAwake 1700000000000 ''e1'',
      loggedEvent NapStarted 1700003600000 ''e2'',
      loggedEvent NapEnded 1700003600000 ''e3'']"

text \<open>A first wake and a meal ten hours later.\<close>

definition dayLog :: "CareEvent list" where
  "dayLog =
     [loggedEvent FirstAwake 1700000000000 ''e1'',
      loggedEvent SolidsGiven 1700036000000 ''e2'']"

text \<open>The suppression entry left by deleting the synthesized feed of 150 minutes after
  the first wake.\<close>

definition deletedFeed :: AutoSuppressionEntry where
  "deletedFeed = \<lparr> type = MilkGiven, timestampUtc = toISOString 1700009000000 \<rparr>"

text \<open>
  A stored log, not in time order, that holds a synthesized first-awake marker whose
  timestamp does not parse beside four logged events.
\<close>

definition staleLog :: "CareEvent list" where
  "staleLog =
     [loggedEvent MilkGiven 1700006000000 ''e1'',
      \<lparr> type = FirstAwake, timestampUtc = Unparseable ''yesterday'', eventId = ''e2'',
        autoPredicted = True \<rparr>,
      loggedEvent FirstAwake 1700000000000 ''e3'',
      loggedEvent SolidsGiven 1700000600000 ''e4'',
      loggedEvent SolidsGiven 1700001200000 ''e5'']"

definition singleFeedLog :: "CareEvent list" where
  "singleFeedLog = [loggedEvent MilkGiven 1700000000000 ''e1'']"

definition garbledLog :: "CareEvent list" where
  "garbledLog =
     [\<lparr> type = MilkGiven, timestampUtc = Unparseable ''soon'', eventId = ''e1'',
        autoPredicted = False \<rparr>]"

text \<open>
  A stored log whose first wake is written without an offset, \<open>2023-11-15T07:00:00\<close>,
  followed by a feed logged at 2023-11-15T10:00:00Z.
\<close>

definition localWakeLog :: "CareEvent list" where
  "localWakeLog =
     [\<lparr> type = FirstAwake, timestampUtc = LocalTime 1700031600000, eventId = ''e1'',
        autoPredicted = False \<rparr>,
      loggedEvent MilkGiven 1700042400000 ''e2'']"

text \<open>A first wake and a nap that starts 90 minutes later and has not ended.\<close>

definition napLog :: "CareEvent list" where
  "napLog =
     [loggedEvent FirstAwake 1700000000000 ''e1'',
      loggedEvent NapStarted 1700005400000 ''e2'']"

text \<open>Asleep for the night, with the next first wake entered ahead of time.\<close>

definition nightLog :: "CareEvent list" where
  "nightLog =
     [loggedEvent Asleep 1700000000000 ''e1'',
      loggedEvent FirstAwake 1700036000000 ''e2'']"

section \<open>Properties of the reducer\<close>

lemma foldl_filter_skip:
  assumes "\<And>acc x. \<not> P x \<Longrightarrow> f acc x = acc"
  shows "foldl f acc (filter P xs) = foldl f acc xs"
  using assms by (induction xs arbitrary: acc) auto

lemma reduceEvent_skip: "\<not> usableAt host now event \<Longrightarrow> reduceEvent host now acc event = acc"
  by (cases acc) (auto simp: usableAt_def reduceEvent_def split: number.splits)

text \<open>
  Claim C5. The reducer ignores every event whose timestamp does not parse or lies after
  \<open>now\<close>: the state computed from a log is the state computed from the log with those
  events removed, whatever the log and whatever \<open>now\<close>. The reducer has no failing
  operation (\<open>Date.parse\<close> returns \<open>NaN\<close> rather than raising, and the \<open>switch\<close> has a
  default), so it is a total function of the log and \<open>now\<close>.
\<close>

theorem reducer_ignores_future_and_unparseable:
  "recomputeCoreState host events now = recomputeCoreState host (filter (usableAt host now) events) now"
  unfolding recomputeCoreState_def
  by (simp add: foldl_filter_skip [where P = "usableAt host now", OF reduceEvent_skip])

lemma regulationLevel_recompute:
  "regulationLevel (recomputeCoreState host events now) =
     levelFromSignals (estimatedSleepPressure (recomputeCoreState host events now))
       (if truthy (timeSinceLastFeed (recomputeCoreState host events now))
        then Some (real_of_int (the (timeSinceLastFeed (recomputeCoreState host events now)))
                     / real_of_int MS_MIN)
        else None)"
  by (simp add: recomputeCoreState_def finishCoreState_def Let_def split: prod.splits)

text \<open>
  Claim C4. For every log and \<open>now\<close>, with \<open>p\<close> the sleep pressure of the computed state
  and the time since the last feed read from its field \<open>timeSinceLastFeed\<close> (in ms, or
  null): the level is high iff \<open>p \<ge> 0.8\<close> or the time since feed is at least 180 min; low
  iff \<open>p \<le> 0.35\<close> and the time since feed is null or under 120 min, and it is not high;
  medium otherwise. At the boundary, pressure 0.79 with no feed data is not high, and
  pressure 0.8 is high whatever the feed timing.
\<close>

theorem regulationLevel_tiers:
  "(let st = recomputeCoreState host events now;
        p = estimatedSleepPressure st;
        feedLate = (\<exists>ms. timeSinceLastFeed st = Some ms \<and> real_of_int ms / 60000 \<ge> 180);
        feedRecent = (timeSinceLastFeed st = None \<or>
                      (\<exists>ms. timeSinceLastFeed st = Some ms \<and> real_of_int ms / 60000 < 120))
    in (regulationLevel st = high) = (p \<ge> 0.8 \<or> feedLate)
     \<and> (regulationLevel st = low) = (p \<le> 0.35 \<and> feedRecent \<and> \<not> (p \<ge> 0.8 \<or> feedLate))
     \<and> (regulationLevel st = medium) =
         (\<not> (p \<ge> 0.8 \<or> feedLate) \<and> \<not> (p \<le> 0.35 \<and> feedRecent)))
   \<and> levelFromSignals 0.79 None \<noteq> high
   \<and> (\<forall>timeSinceFeedMin. levelFromSignals 0.8 timeSinceFeedMin = high)"
proof -
  obtain st where st: "st = recomputeCoreState host events now" by simp
  let ?p = "estimatedSleepPressure st"
  let ?late = "\<exists>ms. timeSinceLastFeed st = Some ms \<and> real_of_int ms / 60000 \<ge> 180"
  let ?recent = "timeSinceLastFeed st = None \<or>
                 (\<exists>ms. timeSinceLastFeed st = Some ms \<and> real_of_int ms / 60000 < 120)"
  have lvl: "regulationLevel st =
     levelFromSignals ?p
       (if truthy (timeSinceLastFeed st)
        then Some (real_of_int (the (timeSinceLastFeed st)) / real_of_int MS_MIN) else None)"
    unfolding st by (rule regulationLevel_recompute)
  have tiers:
    "(regulationLevel st = high) = (?p \<ge> 0.8 \<or> ?late)
     \<and> (regulationLevel st = low) = (?p \<le> 0.35 \<and> ?recent \<and> \<not> (?p \<ge> 0.8 \<or> ?late))
     \<and> (regulationLevel st = medium) = (\<not> (?p \<ge> 0.8 \<or> ?late) \<and> \<not> (?p \<le> 0.35 \<and> ?recent))"
  proof (cases "timeSinceLastFeed st")
    case None
    then show ?thesis using lvl by (simp add: levelFromSignals_def)
  next
    case (Some ms)
    then show ?thesis
      using lvl by (cases "ms = 0") (auto simp: levelFromSignals_def MS_MIN_def)
  qed
  have b1: "levelFromSignals 0.79 None \<noteq> high"
    by (simp add: levelFromSignals_def)
  have b2: "\<forall>f. levelFromSignals 0.8 f = high"
    by (simp add: levelFromSignals_def)
  show ?thesis
    using tiers b1 b2 unfolding Let_def st by blast
qed

text \<open>
  What the reducer computes for the sleep pressure, in terms of the fields of the state
  it returns: the penalty is applied when the recorded duration of the last nap is not
  0 and under 45 minutes.
\<close>

lemma estimatedSleepPressure_recompute:
  "estimatedSleepPressure (recomputeCoreState host events now) =
     (let st = recomputeCoreState host events now in
      if \<not> truthy (lastWakeTime st) then 0
      else min 1 (max 0 (real_of_int (now - the (lastWakeTime st)) / 60000) / 150
                  + (if truthy (lastNapDuration st)
                        \<and> real_of_int (the (lastNapDuration st)) / 60000 < 45
                     then 0.15 else 0)))"
  by (simp add: recomputeCoreState_def finishCoreState_def computeSleepPressure_def Let_def
        MS_MIN_def split: prod.splits)

text \<open>
  Claim C3, at a nap of duration 0. The log \<open>zeroNapLog\<close> read 30 minutes after the nap:
  the reducer records the nap with duration 0, and the pressure is \<open>30 / 150 = 1/5\<close>,
  without the penalty 0.15 that a nap under 45 minutes carries (the claim gives
  \<open>30 / 150 + 0.15 = 7/20\<close>): \<open>lastNapDuration ? ... : null\<close> takes the duration 0 for
  no nap.
\<close>

theorem zero_duration_nap_has_no_penalty:
  "lastNapDuration (recomputeCoreState host zeroNapLog 1700005400000) = Some 0
   \<and> lastWakeTime (recomputeCoreState host zeroNapLog 1700005400000) = Some 1700003600000
   \<and> estimatedSleepPressure (recomputeCoreState host zeroNapLog 1700005400000) = 1 / 5"
  by code_simp

section \<open>Properties of the normalizer\<close>

subsection \<open>Sorting\<close>

lemma set_insertEvent: "set (insertEvent host x ys) = insert x (set ys)"
  by (induction ys) auto

lemma set_sortEvents: "set (sortEvents host xs) = set xs"
  by (induction xs) (auto simp: sortEvents_def set_insertEvent)

lemma parses_Num: "parses e \<Longrightarrow> Date_parse host (timestampUtc e) = Num (instantOf host e)"
  by (cases "timestampUtc e") (simp_all add: parses_def instantOf_def)

lemma not_parses_NaN: "\<not> parses e \<Longrightarrow> Date_parse host (timestampUtc e) = NaN"
  by (cases "timestampUtc e") (simp_all add: parses_def)

text \<open>On events that parse, the model's sort is the stable sort by instant.\<close>

lemma insertEvent_insort:
  "parses x \<Longrightarrow> list_all parses ys \<Longrightarrow> insertEvent host x ys = insort_key (instantOf host) x ys"
  by (induction ys) (auto simp: compareByTime_def parses_Num)

lemma sortEvents_sort_key:
  "list_all parses xs \<Longrightarrow> sortEvents host xs = sort_key (instantOf host) xs"
proof (induction xs)
  case Nil
  then show ?case by (simp add: sortEvents_def)
next
  case (Cons x xs)
  then have "sortEvents host xs = sort_key (instantOf host) xs" by simp
  moreover have "list_all parses (sort_key (instantOf host) xs)"
    using Cons.prems by (simp add: list_all_iff)
  ultimately show ?case
    using Cons.prems insertEvent_insort [of x "sort_key (instantOf host) xs"]
    by (simp add: sortEvents_def)
qed

lemma filter_sort_append:
  assumes "\<forall>a\<in>set A. \<not> P a" and "sorted (map k (filter P W))"
  shows "filter P (sort_key k (W @ A)) = filter P W"
proof -
  have "filter P (sort_key k (W @ A)) = sort_key k (filter P (W @ A))"
    by (rule filter_sort)
  also have "filter P (W @ A) = filter P W"
    using assms(1) by simp
  also have "sort_key k (filter P W) = filter P W"
    using assms(2) by (rule sort_key_id_if_sorted)
  finally show ?thesis .
qed

lemma find_filter_hd:
  "find P xs = (case filter P xs of [] \<Rightarrow> None | x # _ \<Rightarrow> Some x)"
  by (induction xs) auto

lemma find_Some_set: "find P xs = Some x \<Longrightarrow> x \<in> set xs \<and> P x"
  by (induction xs) (auto split: if_splits)

lemma find_not_None: "\<exists>x\<in>set xs. P x \<Longrightarrow> find P xs \<noteq> None"
  by (induction xs) auto

subsection \<open>The first-awake marker\<close>

lemma hasFirstAwake_iff:
  "hasFirstAwake host evLog \<longleftrightarrow> (\<exists>e\<in>set evLog. type e = FirstAwake \<and> \<not> autoPredicted e)"
  by (simp add: hasFirstAwake_def ordered_def list_ex_iff set_sortEvents)

lemma set_cleaned:
  "set (cleaned host evLog) =
     {e \<in> set evLog. \<not> (type e = FirstAwake \<and> autoPredicted e \<and> hasFirstAwake host evLog)}"
  by (auto simp: cleaned_def ordered_def set_sortEvents)

lemma set_cleaned_subset: "set (cleaned host evLog) \<subseteq> set evLog"
  by (auto simp: set_cleaned)

lemma hasAnyFirstAwake_iff:
  "hasAnyFirstAwake host evLog \<longleftrightarrow> (\<exists>e\<in>set evLog. type e = FirstAwake)"
  unfolding hasAnyFirstAwake_def list_ex_iff set_cleaned hasFirstAwake_iff by auto

lemma type_predictedFirstAwake: "type (predictedFirstAwake host now) = FirstAwake"
  by (simp add: predictedFirstAwake_def Let_def)

lemma parses_predicted: "parses (predictedFirstAwake host now)"
  by (simp add: parses_def predictedFirstAwake_def Let_def toISOString_def)

lemma autoPredicted_predicted: "autoPredicted (predictedFirstAwake host now)"
  by (simp add: predictedFirstAwake_def Let_def)

lemma set_withFirstAwake_subset:
  "set (withFirstAwake host evLog now) \<subseteq> insert (predictedFirstAwake host now) (set evLog)"
  using set_cleaned_subset [of host evLog] by (auto simp: withFirstAwake_def)

lemma find_FirstAwake_withFirstAwake:
  "\<exists>fw. find (\<lambda>e. type e = FirstAwake) (withFirstAwake host evLog now) = Some fw"
proof (cases "hasAnyFirstAwake host evLog")
  case True
  then have "\<exists>e\<in>set (cleaned host evLog). type e = FirstAwake"
    by (simp add: hasAnyFirstAwake_def list_ex_iff)
  then have "find (\<lambda>e. type e = FirstAwake) (cleaned host evLog) \<noteq> None"
    by (rule find_not_None)
  then show ?thesis using True by (auto simp: withFirstAwake_def)
next
  case False
  have "find (\<lambda>e. type e = FirstAwake) (cleaned host evLog @ [predictedFirstAwake host now]) \<noteq> None"
    by (rule find_not_None) (simp add: type_predictedFirstAwake)
  then show ?thesis using False by (auto simp: withFirstAwake_def)
qed

lemma realEvents_withFirstAwake:
  "realEvents (withFirstAwake host evLog now) = realEvents (ordered host evLog)"
proof -
  have "realEvents (cleaned host evLog) = realEvents (ordered host evLog)"
    unfolding realEvents_def cleaned_def filter_filter
    by (rule filter_cong) auto
  then show ?thesis
    by (simp add: withFirstAwake_def realEvents_def predictedFirstAwake_def Let_def)
qed

subsection \<open>The baseline schedule\<close>

text \<open>The loop, one cycle unfolded, with the lets of the source substituted.\<close>

lemma baselineLoop_step:
  "baselineLoop cfg horizon wakeStart cycle events =
     (if numLt (Num wakeStart) horizon \<and> cycle < maxCycles then
        if numLe (Num (wakeStart + minWakeWindowMin cfg * MS_MIN)) horizon then
          if numLe (Num (wakeStart + minWakeWindowMin cfg * MS_MIN
                           + expectedNapDurationMin cfg * MS_MIN)) horizon
          then baselineLoop cfg horizon
                 (wakeStart + minWakeWindowMin cfg * MS_MIN + expectedNapDurationMin cfg * MS_MIN)
                 (cycle + 1)
                 (events @ feedPart cfg horizon wakeStart
                    @ [napStartEvent (wakeStart + minWakeWindowMin cfg * MS_MIN),
                       napEndEvent (wakeStart + minWakeWindowMin cfg * MS_MIN
                                      + expectedNapDurationMin cfg * MS_MIN)])
          else events @ feedPart cfg horizon wakeStart
                 @ [napStartEvent (wakeStart + minWakeWindowMin cfg * MS_MIN)]
        else events @ feedPart cfg horizon wakeStart
      else events)"
  by (subst baselineLoop.simps) (simp add: Let_def feedPart_def)

lemma feedPart_pres: "(\<And>x. P (feedEvent x)) \<Longrightarrow> list_all P (feedPart cfg horizon wakeStart)"
  by (simp add: feedPart_def)

text \<open>A property of every event the loop can push holds of every event it returns.\<close>

lemma baselineLoop_pres:
  assumes gen: "\<And>w. list_all P (feedPart cfg horizon w)"
    "\<And>x. P (napStartEvent x)" "\<And>x. P (napEndEvent x)"
  shows "list_all P events \<Longrightarrow> list_all P (baselineLoop cfg horizon wakeStart cycle events)"
proof (induction "maxCycles - cycle" arbitrary: cycle wakeStart events)
  case 0
  then have "\<not> cycle < maxCycles" by simp
  then have "baselineLoop cfg horizon wakeStart cycle events = events"
    by (subst baselineLoop_step) simp
  with 0 show ?case by simp
next
  case (Suc n)
  have rec: "list_all P (baselineLoop cfg horizon w' (cycle + 1) evs)"
    if "list_all P evs" for w' evs
    using Suc.hyps(1) [of "cycle + 1" evs w'] Suc.hyps(2) that by simp
  show ?case
    by (subst baselineLoop_step) (simp add: Suc.prems gen rec del: One_nat_def)
qed

lemma buildBaselineEvents_pres:
  assumes "\<And>x. P (feedEvent x)" "\<And>x. P (napStartEvent x)" "\<And>x. P (napEndEvent x)"
  shows "list_all P (buildBaselineEvents cfg firstWakeUtc horizon)"
  unfolding buildBaselineEvents_def
  using assms by (intro baselineLoop_pres feedPart_pres) simp_all

lemma parses_baseline:
  "list_all parses (buildBaselineEvents cfg fw horizon)"
  by (rule buildBaselineEvents_pres)
     (simp_all add: parses_def feedEvent_def napStartEvent_def napEndEvent_def toISOString_def)

lemma not_FirstAwake_baseline:
  "list_all (\<lambda>e. type e \<noteq> FirstAwake) (buildBaselineEvents cfg fw horizon)"
  by (rule buildBaselineEvents_pres)
     (simp_all add: feedEvent_def napStartEvent_def napEndEvent_def)

lemma autoPredicted_baseline:
  "list_all autoPredicted (buildBaselineEvents cfg fw horizon)"
  by (rule buildBaselineEvents_pres)
     (simp_all add: feedEvent_def napStartEvent_def napEndEvent_def)

lemma readAlike_baseline:
  "list_all (\<lambda>e. readAlike host host' (timestampUtc e)) (buildBaselineEvents cfg fw horizon)"
  by (rule buildBaselineEvents_pres)
     (simp_all add: readAlike_def feedEvent_def napStartEvent_def napEndEvent_def
        toISOString_def)

text \<open>The synthesized events within the horizon, and the schedule beyond it.\<close>

lemma withinHorizon_synthesized:
  "withinHorizon host h (feedEvent x) = (x \<le> h)"
  "withinHorizon host h (napStartEvent x) = (x \<le> h)"
  "withinHorizon host h (napEndEvent x) = (x \<le> h)"
  by (simp_all add: withinHorizon_def feedEvent_def napStartEvent_def napEndEvent_def
        toISOString_def)

lemma feedPart_filter:
  "feedPart cfg (Num h) w
     = filter (withinHorizon host h) [feedEvent (w + feedIntervalMinMin cfg * MS_MIN)]"
  by (simp add: feedPart_def withinHorizon_synthesized)

lemma MS_MIN_pos: "0 < MS_MIN"
  by (simp add: MS_MIN_def)

lemma schedule_beyond_horizon:
  assumes "0 < feedIntervalMinMin cfg" and "0 < minWakeWindowMin cfg"
    and "0 \<le> expectedNapDurationMin cfg"
  shows "h \<le> w \<Longrightarrow> filter (withinHorizon host h) (baselineSchedule cfg n w) = []"
proof (induction n arbitrary: w)
  case 0
  then show ?case by simp
next
  case (Suc n)
  have f: "0 < feedIntervalMinMin cfg * MS_MIN"
    using assms(1) MS_MIN_pos by simp
  have a: "0 < minWakeWindowMin cfg * MS_MIN"
    using assms(2) MS_MIN_pos by simp
  have d: "0 \<le> expectedNapDurationMin cfg * MS_MIN"
    using assms(3) MS_MIN_pos by simp
  have "h \<le> nextWake cfg w"
    using Suc.prems a d by (simp add: nextWake_def)
  then have "filter (withinHorizon host h) (baselineSchedule cfg n (nextWake cfg w)) = []"
    by (rule Suc.IH)
  moreover have "filter (withinHorizon host h) (cycleEvents cfg w) = []"
    using Suc.prems f a d by (simp add: cycleEvents_def withinHorizon_synthesized)
  ultimately show ?case by simp
qed

text \<open>
  The loop from cycle \<open>c\<close> on returns what it was given, followed by the remaining
  cycles of the schedule cut at the horizon.
\<close>

lemma baselineLoop_schedule:
  assumes pos: "0 < feedIntervalMinMin cfg" "0 < minWakeWindowMin cfg"
    "0 \<le> expectedNapDurationMin cfg"
  shows "baselineLoop cfg (Num h) w c acc
         = acc @ filter (withinHorizon host h) (baselineSchedule cfg (maxCycles - c) w)"
proof (induction "maxCycles - c" arbitrary: c w acc)
  case 0
  then have "\<not> c < maxCycles" by simp
  then have "baselineLoop cfg (Num h) w c acc = acc"
    by (subst baselineLoop_step) simp
  with 0 show ?case by simp
next
  case (Suc n)
  let ?ns = "w + minWakeWindowMin cfg * MS_MIN"
  let ?ne = "?ns + expectedNapDurationMin cfg * MS_MIN"
  let ?feed = "feedPart cfg (Num h) w"
  have c: "c < maxCycles" and n: "maxCycles - (c + 1) = n"
    using Suc.hyps(2) by simp_all
  have d: "0 \<le> expectedNapDurationMin cfg * MS_MIN"
    using pos(3) MS_MIN_pos by simp
  have sched: "baselineSchedule cfg (maxCycles - c) w
                 = cycleEvents cfg w @ baselineSchedule cfg n ?ne"
    using Suc.hyps(2) [symmetric] by (simp add: nextWake_def)
  have cyc: "filter (withinHorizon host h) (cycleEvents cfg w)
               = ?feed @ filter (withinHorizon host h) [napStartEvent ?ns, napEndEvent ?ne]"
    by (simp add: cycleEvents_def feedPart_def withinHorizon_synthesized)
  have beyond: "filter (withinHorizon host h) (baselineSchedule cfg k w') = []"
    if "h \<le> w'" for k w'
    using pos that by (rule schedule_beyond_horizon)
  show ?case
  proof (cases "w < h")
    case False
    then have "baselineLoop cfg (Num h) w c acc = acc"
      by (subst baselineLoop_step) simp
    moreover have "filter (withinHorizon host h) (baselineSchedule cfg (maxCycles - c) w) = []"
      using False by (intro beyond) simp
    ultimately show ?thesis by simp
  next
    case wake: True
    show ?thesis
    proof (cases "?ns \<le> h")
      case False
      then have "baselineLoop cfg (Num h) w c acc = acc @ ?feed"
        using wake c by (subst baselineLoop_step) simp
      moreover have "filter (withinHorizon host h) (baselineSchedule cfg n ?ne) = []"
        using False d by (intro beyond) simp
      moreover have "filter (withinHorizon host h) [napStartEvent ?ns, napEndEvent ?ne] = []"
        using False d by (simp add: withinHorizon_synthesized)
      ultimately show ?thesis by (simp add: sched cyc)
    next
      case ns: True
      show ?thesis
      proof (cases "?ne \<le> h")
        case False
        then have "baselineLoop cfg (Num h) w c acc = acc @ ?feed @ [napStartEvent ?ns]"
          using wake c ns by (subst baselineLoop_step) simp
        moreover have "filter (withinHorizon host h) (baselineSchedule cfg n ?ne) = []"
          using False by (intro beyond) simp
        moreover have "filter (withinHorizon host h) [napStartEvent ?ns, napEndEvent ?ne]
                         = [napStartEvent ?ns]"
          using False ns by (simp add: withinHorizon_synthesized)
        ultimately show ?thesis by (simp add: sched cyc)
      next
        case ne: True
        have "baselineLoop cfg (Num h) w c acc
                = baselineLoop cfg (Num h) ?ne (c + 1)
                    (acc @ ?feed @ [napStartEvent ?ns, napEndEvent ?ne])"
          using wake c ns ne by (subst baselineLoop_step) simp
        also have "\<dots> = (acc @ ?feed @ [napStartEvent ?ns, napEndEvent ?ne])
                           @ filter (withinHorizon host h) (baselineSchedule cfg n ?ne)"
          using Suc.hyps(1) [of "c + 1" ?ne "acc @ ?feed @ [napStartEvent ?ns, napEndEvent ?ne]"]
            Suc.hyps(2) n
          by simp
        also have "filter (withinHorizon host h) [napStartEvent ?ns, napEndEvent ?ne]
                     = [napStartEvent ?ns, napEndEvent ?ne]"
          using ns ne by (simp add: withinHorizon_synthesized)
        then have "(acc @ ?feed @ [napStartEvent ?ns, napEndEvent ?ne])
                     @ filter (withinHorizon host h) (baselineSchedule cfg n ?ne)
                   = acc @ filter (withinHorizon host h) (baselineSchedule cfg (maxCycles - c) w)"
          by (simp add: sched cyc)
        finally show ?thesis .
      qed
    qed
  qed
qed

text \<open>Every instant of \<open>n\<close> cycles from a wake point is at most the last cycle's wake
  point plus the longer of the feed interval and the cycle length.\<close>

lemma schedule_within_when_far:
  assumes "0 \<le> minWakeWindowMin cfg" and "0 \<le> expectedNapDurationMin cfg"
    and "w + int n * (nextWake cfg 0) + feedIntervalMinMin cfg * MS_MIN \<le> h"
    and "w + int n * (nextWake cfg 0) + nextWake cfg 0 \<le> h"
  shows "list_all (withinHorizon host h) (baselineSchedule cfg (Suc n) w)"
  using assms(3,4)
proof (induction n arbitrary: w)
  case 0
  have a: "0 \<le> minWakeWindowMin cfg * MS_MIN"
    using assms(1) MS_MIN_pos by simp
  have d: "0 \<le> expectedNapDurationMin cfg * MS_MIN"
    using assms(2) MS_MIN_pos by simp
  show ?case
    using 0 a d by (simp add: cycleEvents_def withinHorizon_synthesized nextWake_def)
next
  case (Suc n)
  have a: "0 \<le> minWakeWindowMin cfg * MS_MIN"
    using assms(1) MS_MIN_pos by simp
  have d: "0 \<le> expectedNapDurationMin cfg * MS_MIN"
    using assms(2) MS_MIN_pos by simp
  have p: "0 \<le> int n * nextWake cfg 0"
    using a d by (simp add: nextWake_def)
  have nw: "nextWake cfg w = w + nextWake cfg 0"
    by (simp add: nextWake_def)
  have rest: "list_all (withinHorizon host h) (baselineSchedule cfg (Suc n) (nextWake cfg w))"
    using Suc.prems by (intro Suc.IH) (simp_all add: nw algebra_simps)
  have "list_all (withinHorizon host h) (cycleEvents cfg w)"
    using Suc.prems a d p
    by (simp add: cycleEvents_def withinHorizon_synthesized nextWake_def algebra_simps)
  with rest show ?case by simp
qed

text \<open>
  Claim C7. For every first-awake instant and every horizon, and every configuration
  with a positive feed interval, a positive minimum wake window and a nap duration that
  is not negative: \<open>buildBaselineEvents\<close> returns the events of the eight-cycle
  schedule (per cycle a MilkGiven at the wake point plus \<open>feedIntervalMinMin\<close>, a
  NapStarted at the wake point plus \<open>minWakeWindowMin\<close>, a NapEnded at the nap start plus
  \<open>expectedNapDurationMin\<close>, each cycle starting from the nap end before it) whose
  instants do not exceed the horizon, in the schedule's order, and nothing when the
  horizon is \<open>NaN\<close>. In particular, when the horizon is at or after the feed and the
  nap end of the eighth cycle, it returns the whole schedule, with a feed in each of the
  eight cycles.
\<close>

theorem baseline_is_schedule_within_horizon:
  assumes "0 < feedIntervalMinMin cfg" and "0 < minWakeWindowMin cfg"
    and "0 \<le> expectedNapDurationMin cfg"
  shows "buildBaselineEvents cfg firstWake (Num h)
           = filter (withinHorizon host h) (baselineSchedule cfg 8 firstWake)
       \<and> buildBaselineEvents cfg firstWake NaN = []
       \<and> (firstWake + 7 * nextWake cfg 0 + feedIntervalMinMin cfg * MS_MIN \<le> h
          \<and> firstWake + 8 * nextWake cfg 0 \<le> h \<longrightarrow>
            buildBaselineEvents cfg firstWake (Num h) = baselineSchedule cfg 8 firstWake
          \<and> list_all (\<lambda>k. feedEvent (firstWake + int k * nextWake cfg 0
                                       + feedIntervalMinMin cfg * MS_MIN)
                              \<in> set (buildBaselineEvents cfg firstWake (Num h))) [0..<8])"
proof -
  have cut: "buildBaselineEvents cfg firstWake (Num h)
               = filter (withinHorizon host h) (baselineSchedule cfg 8 firstWake)"
    using baselineLoop_schedule [OF assms, of h firstWake 0 "[]" host]
    by (simp add: buildBaselineEvents_def maxCycles_def)
  have nan: "buildBaselineEvents cfg firstWake NaN = []"
    unfolding buildBaselineEvents_def by (subst baselineLoop_step) simp
  have far: "buildBaselineEvents cfg firstWake (Num h) = baselineSchedule cfg 8 firstWake
             \<and> list_all (\<lambda>k. feedEvent (firstWake + int k * nextWake cfg 0
                                       + feedIntervalMinMin cfg * MS_MIN)
                              \<in> set (buildBaselineEvents cfg firstWake (Num h))) [0..<8]"
    if f: "firstWake + 7 * nextWake cfg 0 + feedIntervalMinMin cfg * MS_MIN \<le> h"
      and e: "firstWake + 8 * nextWake cfg 0 \<le> h"
  proof -
    have "list_all (withinHorizon host h) (baselineSchedule cfg (Suc 7) firstWake)"
      using assms f e by (intro schedule_within_when_far) simp_all
    then have "filter (withinHorizon host h) (baselineSchedule cfg 8 firstWake)
                 = baselineSchedule cfg 8 firstWake"
      by (simp add: list_all_iff eval_nat_numeral)
    then have full: "buildBaselineEvents cfg firstWake (Num h) = baselineSchedule cfg 8 firstWake"
      using cut by simp
    have feeds: "list_all (\<lambda>k. feedEvent (firstWake + int k * nextWake cfg 0
                                       + feedIntervalMinMin cfg * MS_MIN)
                              \<in> set (baselineSchedule cfg 8 firstWake)) [0..<8]"
      by (simp add: eval_nat_numeral upt_rec cycleEvents_def nextWake_def algebra_simps)
    show ?thesis using full feeds by simp
  qed
  show ?thesis using cut nan far by blast
qed

text \<open>
  With \<open>defaultConfig 150\<close> from a first wake at 2023-11-14T22:13:20Z: with the horizon
  24 hours later each of the eight cycles has its feed, nap start and nap end; with the
  horizon 140 minutes later only the first nap is within it (the feed of 150 minutes is
  not), and the loop stops at the nap start of the second cycle.
\<close>

theorem baseline_is_schedule_within_horizon_witness:
  "0 < feedIntervalMinMin (defaultConfig 150) \<and> 0 < minWakeWindowMin (defaultConfig 150)
   \<and> 0 \<le> expectedNapDurationMin (defaultConfig 150)
   \<and> 1700000000000 + 7 * nextWake (defaultConfig 150) 0
        + feedIntervalMinMin (defaultConfig 150) * MS_MIN \<le> 1700086400000
   \<and> 1700000000000 + 8 * nextWake (defaultConfig 150) 0 \<le> 1700086400000
   \<and> buildBaselineEvents (defaultConfig 150) 1700000000000 (Num 1700086400000)
       = baselineSchedule (defaultConfig 150) 8 1700000000000
   \<and> map type (buildBaselineEvents (defaultConfig 150) 1700000000000 (Num 1700086400000))
       = concat (replicate 8 [MilkGiven, NapStarted, NapEnded])
   \<and> buildBaselineEvents (defaultConfig 150) 1700000000000 (Num 1700008400000)
       = [napStartEvent 1700004500000, napEndEvent 1700008100000]"
proof -
  have p1: "0 < feedIntervalMinMin (defaultConfig 150)" by (simp add: defaultConfig_def)
  have p2: "0 < minWakeWindowMin (defaultConfig 150)" by (simp add: defaultConfig_def)
  have p3: "0 \<le> expectedNapDurationMin (defaultConfig 150)" by (simp add: defaultConfig_def)
  have f: "1700000000000 + 7 * nextWake (defaultConfig 150) 0
             + feedIntervalMinMin (defaultConfig 150) * MS_MIN \<le> 1700086400000"
    by (simp add: defaultConfig_def nextWake_def MS_MIN_def)
  have e: "1700000000000 + 8 * nextWake (defaultConfig 150) 0 \<le> 1700086400000"
    by (simp add: defaultConfig_def nextWake_def MS_MIN_def)
  have t: "map type (baselineSchedule (defaultConfig 150) 8 1700000000000)
             = concat (replicate 8 [MilkGiven, NapStarted, NapEnded])"
    by code_simp
  have s: "filter (withinHorizon utcHost 1700008400000)
             (baselineSchedule (defaultConfig 150) 8 1700000000000)
           = [napStartEvent 1700004500000, napEndEvent 1700008100000]"
    by code_simp
  have full: "buildBaselineEvents (defaultConfig 150) 1700000000000 (Num 1700086400000)
                = baselineSchedule (defaultConfig 150) 8 1700000000000"
    using baseline_is_schedule_within_horizon
            [OF p1 p2 p3, of 1700000000000 1700086400000 utcHost] f e
    by blast
  have part: "buildBaselineEvents (defaultConfig 150) 1700000000000 (Num 1700008400000)
                = [napStartEvent 1700004500000, napEndEvent 1700008100000]"
    using baseline_is_schedule_within_horizon
            [OF p1 p2 p3, of 1700000000000 1700008400000 utcHost] s
    by simp
  show ?thesis
    using p1 p2 p3 f e t full part by simp
qed

subsection \<open>The horizon\<close>

lemma foldl_numMax_NaN: "foldl numMax NaN xs = NaN"
  by (induction xs) auto

lemma foldl_numMax_Num:
  "foldl numMax (Num a) (map Num ys) = Num (Max (set (a # ys)))"
proof (induction ys arbitrary: a)
  case Nil
  then show ?case by simp
next
  case (Cons y ys)
  have "Max (set (max a y # ys)) = Max (set (a # y # ys))"
    by (cases "ys = []") (auto simp: max.assoc)
  then show ?case using Cons.IH [of "max a y"] by simp
qed

lemma foldl_numMax_has_NaN:
  "NaN \<in> set xs \<Longrightarrow> foldl numMax a xs = NaN"
proof (induction xs arbitrary: a)
  case Nil
  then show ?case by simp
next
  case (Cons x xs)
  show ?case
  proof (cases "x = NaN")
    case True
    then have "numMax a x = NaN" by (cases a) auto
    then show ?thesis by (simp add: foldl_numMax_NaN)
  next
    case False
    then show ?thesis using Cons by auto
  qed
qed

lemma horizonUtc_cong:
  "realEvents w1 = realEvents w2 \<Longrightarrow> horizonUtc host w1 now = horizonUtc host w2 now"
  by (simp add: horizonUtc_def lastThreeReal_def)

text \<open>
  Claim C6, amended. For every log and \<open>now\<close>: the real events the horizon is computed
  from are the logged (not auto-predicted, not RoutineStarted) events of the sorted log,
  and \<open>lastThreeReal\<close> is their last three, or all of them when there are fewer. The
  horizon is \<open>now\<close> when there is no real event. When there is one, and the timestamps
  of the last three parse, the horizon is the latest of those timestamps (also when they
  are only one or two); when one of them does not parse, the horizon is \<open>NaN\<close>.
\<close>

theorem horizon_of_last_three_real:
  "(let wfa = withFirstAwake host evLog now; last3 = lastThreeReal wfa in
      realEvents wfa = realEvents (ordered host evLog)
    \<and> (\<exists>earlier. realEvents wfa = earlier @ last3)
    \<and> length last3 = min 3 (length (realEvents wfa))
    \<and> (realEvents wfa = [] \<longrightarrow> horizonUtc host wfa now = Num now)
    \<and> (realEvents wfa \<noteq> [] \<and> list_all parses last3 \<longrightarrow>
         (\<exists>h. horizonUtc host wfa now = Num h
            \<and> (\<exists>e\<in>set last3. Date_parse host (timestampUtc e) = Num h)
            \<and> (\<forall>e\<in>set last3. \<exists>t. Date_parse host (timestampUtc e) = Num t \<and> t \<le> h)))
    \<and> (realEvents wfa \<noteq> [] \<and> \<not> list_all parses last3 \<longrightarrow> horizonUtc host wfa now = NaN))"
proof -
  define wfa where "wfa = withFirstAwake host evLog now"
  define last3 where "last3 = lastThreeReal wfa"
  have r: "realEvents wfa = realEvents (ordered host evLog)"
    unfolding wfa_def by (rule realEvents_withFirstAwake)
  have suffix: "\<exists>earlier. realEvents wfa = earlier @ last3"
    unfolding last3_def lastThreeReal_def
    by (metis append_take_drop_id)
  have len: "length last3 = min 3 (length (realEvents wfa))"
    unfolding last3_def lastThreeReal_def by auto
  have empty: "horizonUtc host wfa now = Num now" if "realEvents wfa = []"
    using that by (simp add: horizonUtc_def lastThreeReal_def)
  have ne: "last3 \<noteq> []" if "realEvents wfa \<noteq> []"
    using that len by (cases "realEvents wfa") auto
  have good: "\<exists>h. horizonUtc host wfa now = Num h
            \<and> (\<exists>e\<in>set last3. Date_parse host (timestampUtc e) = Num h)
            \<and> (\<forall>e\<in>set last3. \<exists>t. Date_parse host (timestampUtc e) = Num t \<and> t \<le> h)"
    if nonempty: "realEvents wfa \<noteq> []" and p: "list_all parses last3"
  proof -
    obtain e es where l3: "last3 = e # es"
      using ne [OF nonempty] by (cases last3) auto
    have pe: "Date_parse host (timestampUtc e) = Num (instantOf host e)"
      using p l3 by (simp add: parses_Num)
    have pes: "map (\<lambda>event. Date_parse host (timestampUtc event)) es = map Num (map (instantOf host) es)"
      using p l3 by (simp add: list_all_iff parses_Num)
    let ?h = "Max (set (instantOf host e # map (instantOf host) es))"
    have "horizonUtc host wfa now =
            foldl numMax (Date_parse host (timestampUtc e))
              (map (\<lambda>event. Date_parse host (timestampUtc event)) es)"
      using l3 by (simp add: horizonUtc_def last3_def [symmetric])
    also have "\<dots> = foldl numMax (Num (instantOf host e)) (map Num (map (instantOf host) es))"
      by (simp only: pe pes)
    also have "\<dots> = Num ?h"
      by (rule foldl_numMax_Num)
    finally have h: "horizonUtc host wfa now = Num ?h" .
    have "?h \<in> set (instantOf host e # map (instantOf host) es)"
      by (rule Max_in) auto
    then have "\<exists>x\<in>set last3. instantOf host x = ?h"
      unfolding l3 by auto
    then have ex: "\<exists>x\<in>set last3. Date_parse host (timestampUtc x) = Num ?h"
      using p by (metis list_all_iff parses_Num)
    have ub: "\<forall>x\<in>set last3. \<exists>t. Date_parse host (timestampUtc x) = Num t \<and> t \<le> ?h"
    proof
      fix x assume x: "x \<in> set last3"
      then have "instantOf host x \<in> set (instantOf host e # map (instantOf host) es)"
        unfolding l3 by auto
      then have "instantOf host x \<le> ?h" by (intro Max_ge) auto
      moreover have "Date_parse host (timestampUtc x) = Num (instantOf host x)"
        using p x by (simp add: list_all_iff parses_Num)
      ultimately show "\<exists>t. Date_parse host (timestampUtc x) = Num t \<and> t \<le> ?h" by blast
    qed
    show ?thesis using h ex ub by blast
  qed
  have bad: "horizonUtc host wfa now = NaN"
    if nonempty: "realEvents wfa \<noteq> []" and np: "\<not> list_all parses last3"
  proof -
    obtain e es where l3: "last3 = e # es"
      using ne [OF nonempty] by (cases last3) auto
    show ?thesis
    proof (cases "parses e")
      case False
      then show ?thesis
        using l3 not_parses_NaN [of e host]
        by (simp add: horizonUtc_def last3_def [symmetric] foldl_numMax_NaN)
    next
      case True
      then have "\<exists>x\<in>set es. \<not> parses x" using np l3 by (auto simp: list_all_iff)
      then have "NaN \<in> set (map (\<lambda>event. Date_parse host (timestampUtc event)) es)"
        using not_parses_NaN [of _ host] by force
      then show ?thesis
        using l3 by (simp add: horizonUtc_def last3_def [symmetric] foldl_numMax_has_NaN)
    qed
  qed
  show ?thesis
    unfolding Let_def wfa_def [symmetric] last3_def [symmetric]
    using r suffix len empty good bad by blast
qed

text \<open>
  The amended claim at three logs read at 2023-11-15T09:13:20Z: the empty log (horizon
  \<open>now\<close>), \<open>dayLog\<close> with its two real events (horizon the later of the two, ten hours
  after the first wake), and a log whose only real event does not parse (horizon
  \<open>NaN\<close>).
\<close>

theorem horizon_of_last_three_real_witness:
  "realEvents (withFirstAwake utcHost [] 1700039600000) = []
   \<and> horizonUtc utcHost (withFirstAwake utcHost [] 1700039600000) 1700039600000 = Num 1700039600000
   \<and> realEvents (withFirstAwake utcHost dayLog 1700039600000) \<noteq> []
   \<and> list_all parses (lastThreeReal (withFirstAwake utcHost dayLog 1700039600000))
   \<and> length (lastThreeReal (withFirstAwake utcHost dayLog 1700039600000)) = 2
   \<and> horizonUtc utcHost (withFirstAwake utcHost dayLog 1700039600000) 1700039600000
       = Num 1700036000000
   \<and> realEvents (withFirstAwake utcHost garbledLog 1700039600000) \<noteq> []
   \<and> \<not> list_all parses (lastThreeReal (withFirstAwake utcHost garbledLog 1700039600000))
   \<and> horizonUtc utcHost (withFirstAwake utcHost garbledLog 1700039600000) 1700039600000 = NaN"
proof -
  have e: "realEvents (withFirstAwake utcHost [] 1700039600000) = []" by code_simp
  have d1: "realEvents (withFirstAwake utcHost dayLog 1700039600000) \<noteq> []" by code_simp
  have d2: "list_all parses (lastThreeReal (withFirstAwake utcHost dayLog 1700039600000))"
    by code_simp
  have d3: "length (lastThreeReal (withFirstAwake utcHost dayLog 1700039600000)) = 2"
    by code_simp
  have d4: "horizonUtc utcHost (withFirstAwake utcHost dayLog 1700039600000) 1700039600000
              = Num 1700036000000"
    by code_simp
  have g1: "realEvents (withFirstAwake utcHost garbledLog 1700039600000) \<noteq> []" by code_simp
  have g2: "\<not> list_all parses (lastThreeReal (withFirstAwake utcHost garbledLog 1700039600000))"
    by code_simp
  show ?thesis
    using horizon_of_last_three_real [of utcHost "[]" 1700039600000]
      horizon_of_last_three_real [of utcHost dayLog 1700039600000]
      horizon_of_last_three_real [of utcHost garbledLog 1700039600000]
      e d1 d2 d3 d4 g1 g2
    by (simp add: Let_def)
qed

text \<open>
  The claim as stated (the horizon is \<open>now\<close> whenever there are fewer than three real
  events) fails at a log with one logged feed, read an hour later: there is one real
  event, and the horizon is its timestamp, not \<open>now\<close>.
\<close>

theorem horizon_with_one_real_event_is_not_now:
  "length (realEvents (withFirstAwake utcHost singleFeedLog 1700003600000)) = 1
   \<and> horizonUtc utcHost (withFirstAwake utcHost singleFeedLog 1700003600000) 1700003600000
       = Num 1700000000000
   \<and> horizonUtc utcHost (withFirstAwake utcHost singleFeedLog 1700003600000) 1700003600000
       \<noteq> Num 1700003600000"
  by code_simp

subsection \<open>Merging the candidates\<close>

lemma isSuppressedAuto_iff:
  "isSuppressedAuto host suppressed ty t \<longleftrightarrow>
     (\<exists>s\<in>set suppressed. type s = ty
        \<and> (\<exists>T. Date_parse host (timestampUtc s) = Num T \<and> \<bar>T - t\<bar> \<le> 1200000))"
proof -
  have "(if type s \<noteq> ty then False
         else (case Date_parse host (timestampUtc s) of NaN \<Rightarrow> False
               | Num entryTime \<Rightarrow> \<bar>entryTime - t\<bar> \<le> 1200000))
        = (type s = ty \<and> (\<exists>T. Date_parse host (timestampUtc s) = Num T \<and> \<bar>T - t\<bar> \<le> 1200000))"
    for s :: AutoSuppressionEntry
    by (cases "Date_parse host (timestampUtc s)") auto
  then show ?thesis
    by (simp add: isSuppressedAuto_def list_ex_iff BASELINE_TOLERANCE_MIN_def MS_MIN_def)
qed

lemma hasMatchingEvent_iff:
  "hasMatchingEvent host events ty t \<longleftrightarrow>
     (\<exists>e\<in>set events. type e = ty
        \<and> (\<exists>T. Date_parse host (timestampUtc e) = Num T \<and> \<bar>T - t\<bar> \<le> 1200000))"
proof -
  have "(if type e \<noteq> ty then False
         else (case Date_parse host (timestampUtc e) of NaN \<Rightarrow> False
               | Num eventTime \<Rightarrow> \<bar>eventTime - t\<bar> \<le> 1200000))
        = (type e = ty \<and> (\<exists>T. Date_parse host (timestampUtc e) = Num T \<and> \<bar>T - t\<bar> \<le> 1200000))"
    for e :: CareEvent
    by (cases "Date_parse host (timestampUtc e)") auto
  then show ?thesis
    by (simp add: hasMatchingEvent_def list_ex_iff BASELINE_TOLERANCE_MIN_def MS_MIN_def)
qed

lemma hasMatchingEvent_mono:
  "set xs \<subseteq> set ys \<Longrightarrow> hasMatchingEvent host xs ty t \<Longrightarrow> hasMatchingEvent host ys ty t"
  unfolding hasMatchingEvent_iff by blast

text \<open>The merge only appends, and what it appends are unsuppressed candidates.\<close>

lemma foldl_mergeCandidate_decomp:
  "\<exists>added. foldl (mergeCandidate host suppressed) merged candidates = merged @ added
     \<and> set added \<subseteq> set candidates
     \<and> (\<forall>c\<in>set added. \<exists>t. Date_parse host (timestampUtc c) = Num t
            \<and> \<not> isSuppressedAuto host suppressed (type c) t)"
proof (induction candidates arbitrary: merged)
  case Nil
  then show ?case by simp
next
  case (Cons c cs)
  obtain added where a:
    "foldl (mergeCandidate host suppressed) (mergeCandidate host suppressed merged c) cs
       = mergeCandidate host suppressed merged c @ added"
    "set added \<subseteq> set cs"
    "\<forall>c\<in>set added. \<exists>t. Date_parse host (timestampUtc c) = Num t
            \<and> \<not> isSuppressedAuto host suppressed (type c) t"
    using Cons.IH by blast
  show ?case
  proof (cases "mergeCandidate host suppressed merged c = merged")
    case True
    with a show ?thesis by (intro exI [of _ added]) auto
  next
    case False
    then have m: "mergeCandidate host suppressed merged c = merged @ [c]"
      and ok: "\<exists>t. Date_parse host (timestampUtc c) = Num t
                 \<and> \<not> isSuppressedAuto host suppressed (type c) t"
      by (auto simp: mergeCandidate_def split: number.splits if_splits)
    with a show ?thesis by (intro exI [of _ "c # added"]) auto
  qed
qed

text \<open>After the merge every candidate is suppressed or has a match in the merged log.\<close>

lemma foldl_mergeCandidate_settled:
  "\<forall>c\<in>set candidates. \<forall>t. Date_parse host (timestampUtc c) = Num t \<longrightarrow>
      isSuppressedAuto host suppressed (type c) t
      \<or> hasMatchingEvent host (foldl (mergeCandidate host suppressed) merged candidates) (type c) t"
proof (induction candidates arbitrary: merged)
  case Nil
  then show ?case by simp
next
  case (Cons c cs)
  let ?m1 = "mergeCandidate host suppressed merged c"
  obtain added where a: "foldl (mergeCandidate host suppressed) ?m1 cs = ?m1 @ added"
    using foldl_mergeCandidate_decomp by blast
  have head: "isSuppressedAuto host suppressed (type c) t
      \<or> hasMatchingEvent host (foldl (mergeCandidate host suppressed) ?m1 cs) (type c) t"
    if t: "Date_parse host (timestampUtc c) = Num t" for t
  proof (cases "isSuppressedAuto host suppressed (type c) t")
    case True
    then show ?thesis by simp
  next
    case False
    have "hasMatchingEvent host ?m1 (type c) t"
    proof (cases "hasMatchingEvent host merged (type c) t")
      case True
      then show ?thesis using t False by (simp add: mergeCandidate_def)
    next
      case nomatch: False
      then have "?m1 = merged @ [c]" using t False by (simp add: mergeCandidate_def)
      then show ?thesis using t unfolding hasMatchingEvent_iff by auto
    qed
    then have "hasMatchingEvent host (?m1 @ added) (type c) t"
      by (rule hasMatchingEvent_mono [rotated]) auto
    then show ?thesis using a by simp
  qed
  show ?case using head Cons.IH [of ?m1] by auto
qed

lemma foldl_mergeCandidate_fixed:
  "\<forall>c\<in>set candidates. mergeCandidate host suppressed merged c = merged \<Longrightarrow>
   foldl (mergeCandidate host suppressed) merged candidates = merged"
  by (induction candidates) auto

text \<open>
  The events of a normalized log are those of the log with its first-awake marker and
  the accepted candidates, which are auto-predicted, parse, and are not suppressed.
\<close>

lemma normalizeEventLog_decomp:
  "\<exists>added. set (normalizeEventLog host cfg evLog now suppressed)
        = set (withFirstAwake host evLog now) \<union> set added
     \<and> (\<forall>c\<in>set added. autoPredicted c \<and> (\<exists>t. Date_parse host (timestampUtc c) = Num t
            \<and> \<not> isSuppressedAuto host suppressed (type c) t))"
proof -
  let ?wfa = "withFirstAwake host evLog now"
  show ?thesis
  proof (cases "find (\<lambda>event. type event = FirstAwake) ?wfa")
    case None
    then show ?thesis
      by (intro exI [of _ "[]"]) (simp add: normalizeEventLog_def Let_def set_sortEvents)
  next
    case (Some firstWake)
    show ?thesis
    proof (cases "Date_parse host (timestampUtc firstWake)")
      case NaN
      with Some show ?thesis
        by (intro exI [of _ "[]"]) (simp add: normalizeEventLog_def Let_def set_sortEvents)
    next
      case (Num fw)
      let ?base = "buildBaselineEvents cfg fw (horizonUtc host ?wfa now)"
      obtain added where a: "foldl (mergeCandidate host suppressed) ?wfa ?base = ?wfa @ added"
        "set added \<subseteq> set ?base"
        "\<forall>c\<in>set added. \<exists>t. Date_parse host (timestampUtc c) = Num t
            \<and> \<not> isSuppressedAuto host suppressed (type c) t"
        using foldl_mergeCandidate_decomp by blast
      have "\<forall>c\<in>set added. autoPredicted c"
        using a(2) autoPredicted_baseline [of cfg fw "horizonUtc host ?wfa now"]
        by (auto simp: list_all_iff)
      with a Some Num show ?thesis
        by (intro exI [of _ added]) (simp add: normalizeEventLog_def Let_def set_sortEvents)
    qed
  qed
qed

subsection \<open>Suppression\<close>

text \<open>
  Claim C1. For every log, every suppression list that holds an entry of type MilkGiven
  at a time \<open>T\<close>, and every \<open>now\<close> (and every host and configuration): an event of
  type MilkGiven that is in the normalized log and was not in the input log, that is,
  one the normalizer added, is auto-predicted and its timestamp is more than 20 minutes
  away from \<open>T\<close>. No later \<open>now\<close> brings a suppressed feed back.
\<close>

theorem suppression_honored:
  assumes "s \<in> set suppressed" and "type s = MilkGiven"
    and "Date_parse host (timestampUtc s) = Num T"
    and "e \<in> set (normalizeEventLog host cfg evLog now suppressed)" and "e \<notin> set evLog"
    and "type e = MilkGiven"
  shows "autoPredicted e
         \<and> (\<exists>t. Date_parse host (timestampUtc e) = Num t \<and> \<bar>t - T\<bar> > 20 * 60 * 1000)"
proof -
  obtain added where a:
    "set (normalizeEventLog host cfg evLog now suppressed)
       = set (withFirstAwake host evLog now) \<union> set added"
    "\<forall>c\<in>set added. autoPredicted c \<and> (\<exists>t. Date_parse host (timestampUtc c) = Num t
            \<and> \<not> isSuppressedAuto host suppressed (type c) t)"
    using normalizeEventLog_decomp by blast
  have "e \<noteq> predictedFirstAwake host now"
    using assms(6) type_predictedFirstAwake by auto
  then have "e \<notin> set (withFirstAwake host evLog now)"
    using set_withFirstAwake_subset [of host evLog now] assms(5) by auto
  then have "e \<in> set added" using a(1) assms(4) by auto
  then obtain t where t: "autoPredicted e" "Date_parse host (timestampUtc e) = Num t"
     "\<not> isSuppressedAuto host suppressed MilkGiven t"
    using a(2) assms(6) by auto
  have "\<not> \<bar>T - t\<bar> \<le> 1200000"
    using t(3) assms(1-3) unfolding isSuppressedAuto_iff by blast
  then show ?thesis using t by auto
qed

text \<open>
  With a configuration that has a feed interval of 150 minutes, \<open>dayLog\<close> and the
  suppression entry of the deleted feed of 150 minutes after the first wake, read eleven
  hours after the first wake: the feed of the second cycle (285 minutes after the first
  wake) is added, 135 minutes from the suppressed time, and the deleted feed is not.
\<close>

theorem suppression_honored_witness:
  "deletedFeed \<in> set [deletedFeed] \<and> type deletedFeed = MilkGiven
   \<and> Date_parse utcHost (timestampUtc deletedFeed) = Num 1700009000000
   \<and> feedEvent 1700017100000
        \<in> set (normalizeEventLog utcHost (defaultConfig 150) dayLog 1700039600000 [deletedFeed])
   \<and> feedEvent 1700017100000 \<notin> set dayLog
   \<and> feedEvent 1700009000000
        \<notin> set (normalizeEventLog utcHost (defaultConfig 150) dayLog 1700039600000 [deletedFeed])
   \<and> type (feedEvent 1700017100000) = MilkGiven
   \<and> autoPredicted (feedEvent 1700017100000)
   \<and> (\<exists>t. Date_parse utcHost (timestampUtc (feedEvent 1700017100000)) = Num t
          \<and> \<bar>t - 1700009000000\<bar> > 20 * 60 * 1000)"
proof -
  have h1: "deletedFeed \<in> set [deletedFeed]" by simp
  have h2: "type deletedFeed = MilkGiven" by (simp add: deletedFeed_def)
  have h3: "Date_parse utcHost (timestampUtc deletedFeed) = Num 1700009000000"
    by (simp add: deletedFeed_def toISOString_def)
  have h4: "feedEvent 1700017100000
        \<in> set (normalizeEventLog utcHost (defaultConfig 150) dayLog 1700039600000 [deletedFeed])"
    by code_simp
  have h5: "feedEvent 1700017100000 \<notin> set dayLog" by code_simp
  have h6: "type (feedEvent 1700017100000) = MilkGiven" by (simp add: feedEvent_def)
  have h7: "feedEvent 1700009000000
        \<notin> set (normalizeEventLog utcHost (defaultConfig 150) dayLog 1700039600000 [deletedFeed])"
    by code_simp
  show ?thesis
    using suppression_honored [OF h1 h2 h3 h4 h5 h6] h1 h2 h3 h4 h5 h6 h7 by blast
qed

subsection \<open>The host's time zone\<close>

text \<open>
  The normalizer reaches the host's zone in two places: \<open>resolveTimeZone\<close>, for the
  day start of the first-awake marker it synthesizes, and \<open>Date.parse\<close>, which reads a
  date-time without offset as local time. Where two hosts read the timestamps alike,
  every step that parses gives the same result on both.
\<close>

lemma readAlike_toISOString: "readAlike host host' (toISOString ms)"
  by (simp add: readAlike_def toISOString_def)

lemma compareByTime_alike:
  "readAlike host host' (timestampUtc x) \<Longrightarrow> readAlike host host' (timestampUtc y) \<Longrightarrow>
   compareByTime host x y = compareByTime host' x y"
  by (simp add: compareByTime_def readAlike_def split: number.splits)

lemma insertEvent_alike:
  "readAlike host host' (timestampUtc x) \<Longrightarrow>
   \<forall>y\<in>set ys. readAlike host host' (timestampUtc y) \<Longrightarrow>
   insertEvent host x ys = insertEvent host' x ys"
  by (induction ys) (simp_all add: compareByTime_alike)

lemma sortEvents_alike:
  "\<forall>x\<in>set xs. readAlike host host' (timestampUtc x) \<Longrightarrow>
   sortEvents host xs = sortEvents host' xs"
proof (induction xs)
  case Nil
  then show ?case by (simp add: sortEvents_def)
next
  case (Cons x xs)
  then have eq: "sortEvents host xs = sortEvents host' xs" by simp
  have "insertEvent host x (sortEvents host' xs) = insertEvent host' x (sortEvents host' xs)"
    using Cons.prems by (intro insertEvent_alike) (simp_all add: set_sortEvents)
  then show ?case using eq by (simp add: sortEvents_def)
qed

lemma cleaned_alike:
  assumes "\<forall>x\<in>set evLog. readAlike host host' (timestampUtc x)"
  shows "cleaned host evLog = cleaned host' evLog"
  using sortEvents_alike [OF assms]
  by (simp add: cleaned_def ordered_def hasFirstAwake_def)

lemma withFirstAwake_alike:
  assumes "\<forall>x\<in>set evLog. readAlike host host' (timestampUtc x)"
    and "(\<exists>e\<in>set evLog. type e = FirstAwake)
         \<or> getDayStartUtc host now = getDayStartUtc host' now"
  shows "withFirstAwake host evLog now = withFirstAwake host' evLog now"
  using assms(2) cleaned_alike [OF assms(1)]
  by (auto simp: withFirstAwake_def hasAnyFirstAwake_iff predictedFirstAwake_def)

lemma horizonUtc_alike:
  assumes "\<forall>x\<in>set wfa. readAlike host host' (timestampUtc x)"
  shows "horizonUtc host wfa now = horizonUtc host' wfa now"
proof (cases "lastThreeReal wfa")
  case Nil
  then show ?thesis by (simp add: horizonUtc_def)
next
  case (Cons e es)
  have "set (lastThreeReal wfa) \<subseteq> set wfa"
    unfolding lastThreeReal_def realEvents_def using set_drop_subset by fastforce
  then have "\<forall>x\<in>set (e # es). Date_parse host (timestampUtc x) = Date_parse host' (timestampUtc x)"
    using assms Cons by (auto simp: readAlike_def)
  then have "Date_parse host (timestampUtc e) = Date_parse host' (timestampUtc e)"
    and "map (\<lambda>event. Date_parse host (timestampUtc event)) es
           = map (\<lambda>event. Date_parse host' (timestampUtc event)) es"
    by simp_all
  then show ?thesis using Cons by (simp only: horizonUtc_def list.case)
qed

lemma isSuppressedAuto_alike:
  assumes "\<forall>s\<in>set suppressed. readAlike host host' (timestampUtc s)"
  shows "isSuppressedAuto host suppressed ty t = isSuppressedAuto host' suppressed ty t"
  unfolding isSuppressedAuto_iff using assms by (auto simp: readAlike_def)

lemma hasMatchingEvent_alike:
  assumes "\<forall>e\<in>set events. readAlike host host' (timestampUtc e)"
  shows "hasMatchingEvent host events ty t = hasMatchingEvent host' events ty t"
  unfolding hasMatchingEvent_iff using assms by (auto simp: readAlike_def)

lemma mergeCandidate_alike:
  assumes "\<forall>s\<in>set suppressed. readAlike host host' (timestampUtc s)"
    and "\<forall>e\<in>set merged. readAlike host host' (timestampUtc e)"
    and "readAlike host host' (timestampUtc c)"
  shows "mergeCandidate host suppressed merged c = mergeCandidate host' suppressed merged c"
  using assms(3) isSuppressedAuto_alike [OF assms(1)] hasMatchingEvent_alike [OF assms(2)]
  by (simp add: mergeCandidate_def readAlike_def split: number.splits)

lemma set_mergeCandidate_subset:
  "set (mergeCandidate host suppressed merged c) \<subseteq> insert c (set merged)"
  by (auto simp: mergeCandidate_def split: number.splits)

lemma foldl_mergeCandidate_alike:
  assumes "\<forall>s\<in>set suppressed. readAlike host host' (timestampUtc s)"
  shows "\<forall>e\<in>set merged. readAlike host host' (timestampUtc e) \<Longrightarrow>
         \<forall>c\<in>set candidates. readAlike host host' (timestampUtc c) \<Longrightarrow>
         foldl (mergeCandidate host suppressed) merged candidates
           = foldl (mergeCandidate host' suppressed) merged candidates"
proof (induction candidates arbitrary: merged)
  case Nil
  then show ?case by simp
next
  case (Cons c cs)
  have step: "mergeCandidate host suppressed merged c = mergeCandidate host' suppressed merged c"
    using assms Cons.prems by (intro mergeCandidate_alike) simp_all
  have "\<forall>e\<in>set (mergeCandidate host' suppressed merged c). readAlike host host' (timestampUtc e)"
    using set_mergeCandidate_subset [of host' suppressed merged c] Cons.prems by auto
  then have "foldl (mergeCandidate host suppressed) (mergeCandidate host' suppressed merged c) cs
               = foldl (mergeCandidate host' suppressed) (mergeCandidate host' suppressed merged c) cs"
    using Cons.prems by (intro Cons.IH) simp_all
  then show ?case using step by simp
qed

text \<open>
  Claim C9, amended. The normalizer is a function of the log, the suppression list,
  \<open>now\<close> and the host's time zone, which is not among its parameters and which it reads
  through \<open>resolveTimeZone\<close> and through \<open>Date.parse\<close>. Two hosts give the same
  normalized log, for every configuration, \<open>now\<close>, log and suppression list, when they
  read every timestamp of the log and of the suppression list alike (as they do every
  timestamp that carries \<open>Z\<close> or an offset, which is how \<open>toISOString\<close> writes them) and
  either the log holds a FirstAwake event or the two hosts put the start of the
  operational day of \<open>now\<close> at the same instant.
\<close>

theorem hosts_agree_when_they_read_alike:
  assumes "list_all (\<lambda>e. readAlike host host' (timestampUtc e)) evLog"
    and "list_all (\<lambda>s. readAlike host host' (timestampUtc s)) suppressed"
    and "list_ex (\<lambda>e. type e = FirstAwake) evLog
         \<or> getDayStartUtc host now = getDayStartUtc host' now"
  shows "normalizeEventLog host cfg evLog now suppressed
         = normalizeEventLog host' cfg evLog now suppressed"
proof -
  let ?wfa = "withFirstAwake host evLog now"
  have log: "\<forall>x\<in>set evLog. readAlike host host' (timestampUtc x)"
    using assms(1) by (simp add: list_all_iff)
  have sup: "\<forall>s\<in>set suppressed. readAlike host host' (timestampUtc s)"
    using assms(2) by (simp add: list_all_iff)
  have wfa: "withFirstAwake host' evLog now = ?wfa"
    using assms(3) by (intro withFirstAwake_alike [OF log, symmetric]) (simp add: list_ex_iff)
  have "readAlike host host' (timestampUtc (predictedFirstAwake host now))"
    by (simp add: predictedFirstAwake_def Let_def readAlike_toISOString)
  then have alike: "\<forall>x\<in>set ?wfa. readAlike host host' (timestampUtc x)"
    using set_withFirstAwake_subset [of host evLog now] log by auto
  have hz: "horizonUtc host' ?wfa now = horizonUtc host ?wfa now"
    using horizonUtc_alike [OF alike] by simp
  have srt: "sortEvents host' ?wfa = sortEvents host ?wfa"
    using sortEvents_alike [OF alike] by simp
  show ?thesis
  proof (cases "find (\<lambda>event. type event = FirstAwake) ?wfa")
    case None
    then show ?thesis by (simp add: normalizeEventLog_def Let_def wfa srt)
  next
    case (Some firstWake)
    then have "firstWake \<in> set ?wfa" using find_Some_set by fastforce
    then have fw: "Date_parse host' (timestampUtc firstWake)
                     = Date_parse host (timestampUtc firstWake)"
      using alike by (simp add: readAlike_def)
    show ?thesis
    proof (cases "Date_parse host (timestampUtc firstWake)")
      case NaN
      then show ?thesis using Some fw by (simp add: normalizeEventLog_def Let_def wfa srt)
    next
      case (Num fwt)
      let ?base = "buildBaselineEvents cfg fwt (horizonUtc host ?wfa now)"
      have base: "\<forall>c\<in>set ?base. readAlike host host' (timestampUtc c)"
        using readAlike_baseline [of host host' cfg fwt "horizonUtc host ?wfa now"]
        by (simp add: list_all_iff)
      have fold: "foldl (mergeCandidate host suppressed) ?wfa ?base
                    = foldl (mergeCandidate host' suppressed) ?wfa ?base"
        using sup alike base by (rule foldl_mergeCandidate_alike)
      obtain added where a: "foldl (mergeCandidate host suppressed) ?wfa ?base = ?wfa @ added"
        "set added \<subseteq> set ?base"
        using foldl_mergeCandidate_decomp by blast
      have "\<forall>x\<in>set (?wfa @ added). readAlike host host' (timestampUtc x)"
        using alike base a(2) by auto
      then have "sortEvents host (?wfa @ added) = sortEvents host' (?wfa @ added)"
        by (rule sortEvents_alike)
      then show ?thesis
        using Some Num fw fold a(1) by (simp add: normalizeEventLog_def Let_def wfa hz)
    qed
  qed
qed

text \<open>
  \<open>dayLog\<close> and the suppression entry of the deleted feed carry instants written by
  \<open>toISOString\<close>, and \<open>dayLog\<close> holds a first wake: the UTC host and the Singapore host,
  whose day starts differ, normalize it to the same log.
\<close>

theorem hosts_agree_when_they_read_alike_witness:
  "list_all (\<lambda>e. readAlike utcHost sgHost (timestampUtc e)) dayLog
   \<and> list_all (\<lambda>s. readAlike utcHost sgHost (timestampUtc s)) [deletedFeed]
   \<and> list_ex (\<lambda>e. type e = FirstAwake) dayLog
   \<and> getDayStartUtc utcHost 1700039600000 \<noteq> getDayStartUtc sgHost 1700039600000
   \<and> normalizeEventLog utcHost (defaultConfig 150) dayLog 1700039600000 [deletedFeed]
      = normalizeEventLog sgHost (defaultConfig 150) dayLog 1700039600000 [deletedFeed]"
proof -
  have l: "list_all (\<lambda>e. readAlike utcHost sgHost (timestampUtc e)) dayLog" by code_simp
  have s: "list_all (\<lambda>s. readAlike utcHost sgHost (timestampUtc s)) [deletedFeed]"
    by code_simp
  have h: "list_ex (\<lambda>e. type e = FirstAwake) dayLog" by code_simp
  have d: "getDayStartUtc utcHost 1700039600000 \<noteq> getDayStartUtc sgHost 1700039600000"
    by code_simp
  show ?thesis
    using hosts_agree_when_they_read_alike
            [OF l s, of 1700039600000 "defaultConfig 150"] l s h d
    by simp
qed

text \<open>
  The claim as stated fails on both counts. The empty log read at 2023-11-14T22:13:20Z
  gives two different normalized logs on the two hosts, the synthesized first wake
  being at 07:00 of each host's zone. And \<open>localWakeLog\<close>, which holds its own first
  wake, written without an offset, read at 2023-11-15T10:30:00Z: the UTC host reads the
  first wake as 07:00Z, the Singapore host as 23:00Z of the day before, and the two
  normalized logs differ in length.
\<close>

theorem normalized_log_depends_on_host_zone:
  "normalizeEventLog utcHost (defaultConfig 150) [] 1700000000000 []
     \<noteq> normalizeEventLog sgHost (defaultConfig 150) [] 1700000000000 []
   \<and> list_ex (\<lambda>e. type e = FirstAwake) localWakeLog
   \<and> length (normalizeEventLog utcHost (defaultConfig 150) localWakeLog 1700044200000 [])
     \<noteq> length (normalizeEventLog sgHost (defaultConfig 150) localWakeLog 1700044200000 [])"
  by code_simp

subsection \<open>Idempotence\<close>

lemma cleaned_sorted:
  assumes "list_all parses evLog"
  shows "sorted (map (instantOf host) (cleaned host evLog))"
  unfolding cleaned_def ordered_def sortEvents_sort_key [OF assms]
  by (intro sorted_filter) simp

lemma withFirstAwake_facts:
  assumes p: "list_all parses evLog"
  shows "list_all parses (withFirstAwake host evLog now)"
    and "sorted (map (instantOf host)
           (filter (\<lambda>e. type e = FirstAwake) (withFirstAwake host evLog now)))"
    and "sorted (map (instantOf host) (realEvents (withFirstAwake host evLog now)))"
proof -
  have pc: "list_all parses (cleaned host evLog)"
    using p set_cleaned_subset [of host evLog] by (auto simp: list_all_iff)
  show "list_all parses (withFirstAwake host evLog now)"
    using pc by (simp add: withFirstAwake_def parses_predicted)
  have sc: "sorted (map (instantOf host) (cleaned host evLog))"
    using p by (rule cleaned_sorted)
  show "sorted (map (instantOf host)
          (filter (\<lambda>e. type e = FirstAwake) (withFirstAwake host evLog now)))"
  proof (cases "hasAnyFirstAwake host evLog")
    case True
    then show ?thesis using sc by (simp add: withFirstAwake_def sorted_filter)
  next
    case False
    then have "filter (\<lambda>e. type e = FirstAwake) (cleaned host evLog) = []"
      by (auto simp: hasAnyFirstAwake_def list_ex_iff filter_empty_conv)
    then show ?thesis using False by (simp add: withFirstAwake_def)
  qed
  have "realEvents (withFirstAwake host evLog now) = realEvents (cleaned host evLog)"
    by (simp add: withFirstAwake_def realEvents_def autoPredicted_predicted)
  then show "sorted (map (instantOf host) (realEvents (withFirstAwake host evLog now)))"
    using sc by (simp add: realEvents_def sorted_filter)
qed

text \<open>On a log that parses, the normalizer takes neither early return.\<close>

lemma normalized_shape:
  assumes p: "list_all parses evLog"
  shows "\<exists>added fw fwt.
      find (\<lambda>e. type e = FirstAwake) (withFirstAwake host evLog now) = Some fw
    \<and> Date_parse host (timestampUtc fw) = Num fwt
    \<and> set added
        \<subseteq> set (buildBaselineEvents cfg fwt (horizonUtc host (withFirstAwake host evLog now) now))
    \<and> foldl (mergeCandidate host suppressed) (withFirstAwake host evLog now)
         (buildBaselineEvents cfg fwt (horizonUtc host (withFirstAwake host evLog now) now))
       = withFirstAwake host evLog now @ added
    \<and> normalizeEventLog host cfg evLog now suppressed
       = sort_key (instantOf host) (withFirstAwake host evLog now @ added)"
proof -
  let ?wfa = "withFirstAwake host evLog now"
  obtain fw where fw: "find (\<lambda>e. type e = FirstAwake) ?wfa = Some fw"
    using find_FirstAwake_withFirstAwake by blast
  have pw: "list_all parses ?wfa" using p by (rule withFirstAwake_facts)
  have "fw \<in> set ?wfa" using find_Some_set [OF fw] by simp
  then have "parses fw" using pw by (simp add: list_all_iff)
  then have fwt: "Date_parse host (timestampUtc fw) = Num (instantOf host fw)" by (rule parses_Num)
  let ?base = "buildBaselineEvents cfg (instantOf host fw) (horizonUtc host ?wfa now)"
  obtain added where a: "foldl (mergeCandidate host suppressed) ?wfa ?base = ?wfa @ added"
     "set added \<subseteq> set ?base"
    using foldl_mergeCandidate_decomp by blast
  have "list_all parses added"
    using a(2) parses_baseline [of cfg "instantOf host fw" "horizonUtc host ?wfa now"]
    by (auto simp: list_all_iff)
  then have "list_all parses (?wfa @ added)" using pw by simp
  then have "sortEvents host (?wfa @ added) = sort_key (instantOf host) (?wfa @ added)"
    by (rule sortEvents_sort_key)
  then have "normalizeEventLog host cfg evLog now suppressed
               = sort_key (instantOf host) (?wfa @ added)"
    using fw fwt a(1) by (simp add: normalizeEventLog_def Let_def)
  then show ?thesis using fw fwt a by blast
qed

text \<open>
  Claim C2, amended. For every log whose timestamps all parse, every suppression list
  and every \<open>now\<close> (and every host and configuration), normalizing the normalized log
  again, at the same \<open>now\<close> and with the same suppression list, returns it unchanged.
\<close>

theorem normalize_idempotent_when_timestamps_parse:
  assumes p: "list_all parses evLog"
  shows "normalizeEventLog host cfg
           (normalizeEventLog host cfg evLog now suppressed) now suppressed
         = normalizeEventLog host cfg evLog now suppressed"
proof -
  let ?wfa = "withFirstAwake host evLog now"
  let ?out = "normalizeEventLog host cfg evLog now suppressed"
  obtain added fw fwt where
        fw: "find (\<lambda>e. type e = FirstAwake) ?wfa = Some fw"
    and fwt: "Date_parse host (timestampUtc fw) = Num fwt"
    and sub: "set added \<subseteq> set (buildBaselineEvents cfg fwt (horizonUtc host ?wfa now))"
    and fold1: "foldl (mergeCandidate host suppressed) ?wfa
                  (buildBaselineEvents cfg fwt (horizonUtc host ?wfa now)) = ?wfa @ added"
    and out: "?out = sort_key (instantOf host) (?wfa @ added)"
    using normalized_shape [OF p] by blast
  let ?base = "buildBaselineEvents cfg fwt (horizonUtc host ?wfa now)"
  have pw: "list_all parses ?wfa" using p by (rule withFirstAwake_facts)
  have pa: "list_all parses added"
    using sub parses_baseline [of cfg fwt "horizonUtc host ?wfa now"] by (auto simp: list_all_iff)
  have auto_a: "\<forall>a\<in>set added. autoPredicted a"
    using sub autoPredicted_baseline [of cfg fwt "horizonUtc host ?wfa now"]
    by (auto simp: list_all_iff)
  have nofa_a: "\<forall>a\<in>set added. type a \<noteq> FirstAwake"
    using sub not_FirstAwake_baseline [of cfg fwt "horizonUtc host ?wfa now"]
    by (auto simp: list_all_iff)
  have set_out: "set ?out = set ?wfa \<union> set added" by (simp add: out)
  have po: "list_all parses ?out" using pw pa by (auto simp: out list_all_iff)
  have sorted_out: "sorted (map (instantOf host) ?out)" by (simp add: out)
  \<comment> \<open>the second run: sorting changes nothing\<close>
  have ord: "ordered host ?out = ?out"
    unfolding ordered_def sortEvents_sort_key [OF po]
    using sorted_out by (rule sort_key_id_if_sorted)
  \<comment> \<open>the test for a logged first wake gives the same answer\<close>
  have set_wfa: "set ?wfa = set (cleaned host evLog)
      \<union> (if hasAnyFirstAwake host evLog then {} else {predictedFirstAwake host now})"
    by (simp add: withFirstAwake_def)
  have hfa: "hasFirstAwake host ?out = hasFirstAwake host evLog"
    unfolding hasFirstAwake_iff set_out set_wfa set_cleaned
    using auto_a autoPredicted_predicted by (auto simp: hasFirstAwake_iff)
  have keep: "\<forall>e\<in>set ?out. \<not> (type e = FirstAwake \<and> autoPredicted e \<and> hasFirstAwake host ?out)"
  proof
    fix e assume "e \<in> set ?out"
    then consider "e \<in> set (cleaned host evLog)"
      | "e = predictedFirstAwake host now" "\<not> hasAnyFirstAwake host evLog" | "e \<in> set added"
      unfolding set_out set_wfa by (auto split: if_splits)
    then show "\<not> (type e = FirstAwake \<and> autoPredicted e \<and> hasFirstAwake host ?out)"
    proof cases
      case 1
      then show ?thesis unfolding hfa set_cleaned by auto
    next
      case 2
      then have "\<not> hasFirstAwake host evLog"
        unfolding hasAnyFirstAwake_iff hasFirstAwake_iff by auto
      then show ?thesis unfolding hfa by simp
    next
      case 3
      then show ?thesis using nofa_a by auto
    qed
  qed
  have cl: "cleaned host ?out = ?out"
    unfolding cleaned_def ord using keep by (simp add: filter_id_conv)
  have "\<exists>e\<in>set ?wfa. type e = FirstAwake"
    using find_Some_set [OF fw] by blast
  then have "hasAnyFirstAwake host ?out"
    unfolding hasAnyFirstAwake_iff set_out by auto
  then have wfa2: "withFirstAwake host ?out now = ?out"
    by (simp add: withFirstAwake_def cl)
  \<comment> \<open>the same real events, so the same horizon\<close>
  have "realEvents ?out = realEvents ?wfa"
    unfolding realEvents_def out
    by (rule filter_sort_append)
       (use auto_a withFirstAwake_facts(3) [OF p, of host now] in \<open>auto simp: realEvents_def\<close>)
  then have hz: "horizonUtc host ?out now = horizonUtc host ?wfa now" by (rule horizonUtc_cong)
  \<comment> \<open>the same first FirstAwake\<close>
  have "filter (\<lambda>e. type e = FirstAwake) ?out = filter (\<lambda>e. type e = FirstAwake) ?wfa"
    unfolding out
    by (rule filter_sort_append) (use nofa_a withFirstAwake_facts(2) [OF p, of host now] in auto)
  then have fw2: "find (\<lambda>e. type e = FirstAwake) ?out = Some fw"
    using fw by (simp add: find_filter_hd)
  \<comment> \<open>every candidate is now suppressed or matched\<close>
  have settled: "\<forall>c\<in>set ?base. \<forall>t. Date_parse host (timestampUtc c) = Num t \<longrightarrow>
      isSuppressedAuto host suppressed (type c) t \<or> hasMatchingEvent host (?wfa @ added) (type c) t"
    using foldl_mergeCandidate_settled [of ?base host suppressed ?wfa] unfolding fold1 .
  have "\<forall>c\<in>set ?base. mergeCandidate host suppressed ?out c = ?out"
  proof
    fix c assume c: "c \<in> set ?base"
    show "mergeCandidate host suppressed ?out c = ?out"
    proof (cases "Date_parse host (timestampUtc c)")
      case NaN
      then show ?thesis by (simp add: mergeCandidate_def)
    next
      case (Num t)
      then have "isSuppressedAuto host suppressed (type c) t
                 \<or> hasMatchingEvent host (?wfa @ added) (type c) t"
        using settled c by blast
      moreover have "hasMatchingEvent host (?wfa @ added) (type c) t
                     = hasMatchingEvent host ?out (type c) t"
        unfolding hasMatchingEvent_iff set_out by simp
      ultimately show ?thesis using Num by (auto simp: mergeCandidate_def)
    qed
  qed
  then have fold2: "foldl (mergeCandidate host suppressed) ?out ?base = ?out"
    by (rule foldl_mergeCandidate_fixed)
  have "sortEvents host ?out = ?out" using ord by (simp add: ordered_def)
  then have "normalizeEventLog host cfg ?out now suppressed = ?out"
    unfolding normalizeEventLog_def [of host cfg ?out] Let_def wfa2 hz
    using fw2 fwt fold2 by simp
  then show ?thesis .
qed

text \<open>
  \<open>dayLog\<close> read eleven hours after the first wake: the normalizer adds twelve events to
  its two, and a second run changes nothing.
\<close>

theorem normalize_idempotent_witness:
  "list_all parses dayLog
   \<and> length (normalizeEventLog utcHost (defaultConfig 150) dayLog 1700039600000 []) = 14
   \<and> normalizeEventLog utcHost (defaultConfig 150)
        (normalizeEventLog utcHost (defaultConfig 150) dayLog 1700039600000 []) 1700039600000 []
     = normalizeEventLog utcHost (defaultConfig 150) dayLog 1700039600000 []"
proof -
  have h: "list_all parses dayLog" by code_simp
  have n: "length (normalizeEventLog utcHost (defaultConfig 150) dayLog 1700039600000 []) = 14"
    by code_simp
  show ?thesis
    using normalize_idempotent_when_timestamps_parse
            [OF h, of utcHost "defaultConfig 150" 1700039600000 "[]"] h n
    by simp
qed

text \<open>
  The claim as stated (every log) fails at \<open>staleLog\<close>, read 200 minutes after the
  first wake. The unparseable marker compares as equal to both its neighbours, so the
  first sort leaves the feed of 100 minutes in front; the marker is then dropped, the
  last three real events are those of 0, 10 and 20 minutes and the horizon is 20
  minutes: nothing is synthesized, and the result is the four logged events in time
  order. In the second run the last three real events are those of 10, 20 and 100
  minutes, the horizon is 100 minutes, and a nap start at 75 minutes is added.
\<close>

theorem normalize_twice_differs_on_unparseable_timestamp:
  "normalizeEventLog utcHost (defaultConfig 150)
     (normalizeEventLog utcHost (defaultConfig 150) staleLog 1700012000000 []) 1700012000000 []
   \<noteq> normalizeEventLog utcHost (defaultConfig 150) staleLog 1700012000000 []"
  by code_simp

subsection \<open>applyEvent\<close>

text \<open>
  Claim C10. \<open>applyEvent\<close> returns the suppression list of the state it was given,
  unchanged, for every state, event and \<open>now\<close>.
\<close>

theorem applyEvent_keeps_autoSuppressed:
  "autoSuppressed (applyEvent host cfg state event now) = autoSuppressed state"
  by (simp add: applyEvent_def withLog_def Let_def CoreState.extend_def AppState.fields_def)

section \<open>Properties of the output projector\<close>

text \<open>
  Claim C8, amended. For every state in which the currently-asleep condition holds, every
  \<open>now\<close>, time zone and configuration, \<open>computeOutputs\<close> reports asleep and returns null
  for \<open>nextWindow\<close>, \<open>nextHardStop\<close> and the three instants of the window and the hard
  stop. With a wake time recorded, the wake-window utilization is not null: it is the
  clamped ratio of the minutes awake to the max wake window; and the four category lists
  are empty when the minutes awake do not exceed the max wake window. With no wake time
  recorded, the utilization is null and the lists are those of the not-calibrated tier.
\<close>

theorem asleep_outputs:
  assumes "currentlyAsleep state"
  shows "(let out = computeOutputs host state now timeZone config in
            isAsleep out
          \<and> nextWindow out = None \<and> nextHardStop out = None
          \<and> nextWindowStartUtc out = None \<and> nextWindowEndUtc out = None
          \<and> nextHardStopUtc out = None
          \<and> (truthy (lastWakeTime state) \<longrightarrow>
                wakeUtilization out
                  = Some (clampedRatio (awakeMinOf state now) (maxWakeOf state config)))
          \<and> (truthy (lastWakeTime state) \<and> awakeMinOf state now \<le> maxWakeOf state config \<longrightarrow>
                windowAllowed out = [] \<and> windowSuppressed out = []
              \<and> activityAllowed out = [] \<and> activitySuppressed out = [])
          \<and> (\<not> truthy (lastWakeTime state) \<longrightarrow>
                wakeUtilization out = None
              \<and> (windowAllowed out, windowSuppressed out, activityAllowed out,
                  activitySuppressed out) = notCalibratedTier))"
  using assms by (simp add: computeOutputs_def Let_def)

text \<open>
  Two states from the pipeline, on the UTC host. \<open>napLog\<close> read 100 minutes after the
  first wake, ten minutes into the nap: asleep with a wake time, 100 of 130 minutes
  used, lists empty. \<open>nightLog\<close> read an hour after falling asleep: asleep with no wake
  time recorded.
\<close>

theorem asleep_outputs_witness:
  "currentlyAsleep (rebuildFromLog utcHost (defaultConfig 150) napLog 1700006000000 [])
   \<and> truthy (lastWakeTime (rebuildFromLog utcHost (defaultConfig 150) napLog 1700006000000 []))
   \<and> awakeMinOf (rebuildFromLog utcHost (defaultConfig 150) napLog 1700006000000 []) 1700006000000
        \<le> maxWakeOf (rebuildFromLog utcHost (defaultConfig 150) napLog 1700006000000 []) (defaultConfig 150)
   \<and> nextWindow (computeOutputs utcHost
          (rebuildFromLog utcHost (defaultConfig 150) napLog 1700006000000 [])
          1700006000000 ''UTC'' (defaultConfig 150)) = None
   \<and> windowAllowed (computeOutputs utcHost
          (rebuildFromLog utcHost (defaultConfig 150) napLog 1700006000000 [])
          1700006000000 ''UTC'' (defaultConfig 150)) = []
   \<and> activityAllowed (computeOutputs utcHost
          (rebuildFromLog utcHost (defaultConfig 150) napLog 1700006000000 [])
          1700006000000 ''UTC'' (defaultConfig 150)) = []
   \<and> wakeUtilization (computeOutputs utcHost
          (rebuildFromLog utcHost (defaultConfig 150) napLog 1700006000000 [])
          1700006000000 ''UTC'' (defaultConfig 150)) = Some (Num (10 / 13))
   \<and> currentlyAsleep (rebuildFromLog utcHost (defaultConfig 150) nightLog 1700003600000 [])
   \<and> \<not> truthy (lastWakeTime (rebuildFromLog utcHost (defaultConfig 150) nightLog 1700003600000 []))
   \<and> wakeUtilization (computeOutputs utcHost
          (rebuildFromLog utcHost (defaultConfig 150) nightLog 1700003600000 [])
          1700003600000 ''UTC'' (defaultConfig 150)) = None
   \<and> windowAllowed (computeOutputs utcHost
          (rebuildFromLog utcHost (defaultConfig 150) nightLog 1700003600000 [])
          1700003600000 ''UTC'' (defaultConfig 150)) = [''Log first awake'']"
proof -
  let ?st = "rebuildFromLog utcHost (defaultConfig 150) napLog 1700006000000 []"
  let ?night = "rebuildFromLog utcHost (defaultConfig 150) nightLog 1700003600000 []"
  have a1: "currentlyAsleep ?st" by code_simp
  have a2: "truthy (lastWakeTime ?st)" by code_simp
  have a3: "awakeMinOf ?st 1700006000000 \<le> maxWakeOf ?st (defaultConfig 150)" by code_simp
  have a4: "clampedRatio (awakeMinOf ?st 1700006000000) (maxWakeOf ?st (defaultConfig 150))
              = Num (10 / 13)" by code_simp
  have b1: "currentlyAsleep ?night" by code_simp
  have b2: "\<not> truthy (lastWakeTime ?night)" by code_simp
  show ?thesis
    using asleep_outputs [OF a1, of utcHost 1700006000000 "''UTC''" "defaultConfig 150"]
      asleep_outputs [OF b1, of utcHost 1700003600000 "''UTC''" "defaultConfig 150"]
      a1 a2 a3 a4 b1 b2
    by (simp add: Let_def notCalibratedTier_def)
qed

text \<open>
  The claim as stated fails at \<open>napLog\<close> read 300 minutes after the first wake, 210
  minutes into the sleep: the state is asleep, the wake-window utilization is 1, not
  null, and the category lists are not empty: the block \<open>if (awakeMin > maxWake)\<close>
  runs after the lists were emptied and fills them with the labels of the exceeded
  window.
\<close>

theorem asleep_with_utilization_and_labels:
  "currentlyAsleep (rebuildFromLog utcHost (defaultConfig 150) napLog 1700018000000 [])
   \<and> wakeUtilization (computeOutputs utcHost
          (rebuildFromLog utcHost (defaultConfig 150) napLog 1700018000000 [])
          1700018000000 ''UTC'' (defaultConfig 150)) = Some (Num 1)
   \<and> windowAllowed (computeOutputs utcHost
          (rebuildFromLog utcHost (defaultConfig 150) napLog 1700018000000 [])
          1700018000000 ''UTC'' (defaultConfig 150)) = [''Regulation / low stimulation'']
   \<and> map fst (activityAllowed (computeOutputs utcHost
          (rebuildFromLog utcHost (defaultConfig 150) napLog 1700018000000 [])
          1700018000000 ''UTC'' (defaultConfig 150)))
       = [''Minimal stimulation'', ''Reduce novelty'', ''Bridge to sleep'']"
  by code_simp

end
